theory Spec2Isabelle
  imports Main
begin

section \<open>The grind command-line client (src/grind/main.go)\<close>

text \<open>
  A shallow embedding of the request dispatcher \<open>doRequest\<close>, the config file
  functions \<open>mustLoadConfig\<close> and \<open>mustWriteConfig\<close>, the version gate
  \<open>checkVersion\<close> and the command \<open>CommandInit\<close>.

  The program is written against global state and ends the process on every error
  (\<open>log.Fatalf\<close>, \<open>log.Panicf\<close>, a panic of \<open>semver.MustParse\<close>). The model
  threads a \<open>world\<close> through every function and returns a \<open>result\<close>: \<open>Ok v\<close> when
  the Go function returns \<open>v\<close>, \<open>Abort k\<close> when the process ends there. The world
  holds the package variable \<open>Config\<close>, the environment the program reads (the two
  environment variables, the files, the line on standard input, the server) and a
  trace of everything the program did to the outside, in order.
\<close>

subsection \<open>Constants and data of main.go\<close>

definition defaultHost :: string where
  "defaultHost = ''dorking.cs.dixie.edu''"

definition perUserDotFile :: string where
  "perUserDotFile = ''.codegrinderrc''"

text \<open>The package variable \<open>Config\<close>: two exported fields with JSON names, two
  unexported flags.\<close>

record Config_t =
  Host :: string
  Cookie :: string
  apiReport :: bool
  apiDump :: bool

text \<open>The zero value a Go process starts with.\<close>

definition Config_zero :: Config_t where
  "Config_zero = \<lparr>Host = [], Cookie = [], apiReport = False, apiDump = False\<rparr>"

text \<open>
  \<open>Version\<close> and \<open>User\<close> are declared in the package \<open>types\<close>, which main.go
  imports; main.go reads the three fields of \<open>Version\<close> below and \<open>Name\<close> of
  \<open>User\<close>. \<open>new(Version)\<close> and \<open>new(User)\<close> are their zero values.
\<close>

record Version_t =
  Version :: string
  GrindVersionRequired :: string
  GrindVersionRecommended :: string

record User_t =
  Name :: string

definition new_Version :: Version_t where
  "new_Version = \<lparr>Version = [], GrindVersionRequired = [], GrindVersionRecommended = []\<rparr>"

definition new_User :: User_t where
  "new_User = \<lparr>Name = []\<rparr>"

text \<open>What \<open>cmd.Flag("api").Value.String()\<close> and \<open>cmd.Flag("api-dump").Value.String()\<close>
  return for the running command.\<close>

record Command =
  flag_api :: string
  flag_api_dump :: string

subsection \<open>Values behind \<open>interface{}\<close> and JSON\<close>

text \<open>
  \<open>doRequest\<close> takes its upload and its download target as \<open>interface{}\<close>: either
  \<open>nil\<close> or a value whose dynamic type decides how \<open>encoding/json\<close> treats it. The
  model pairs the value with that behaviour: \<open>Marshal\<close> is \<open>json.MarshalIndent\<close> on a
  value of the type (\<open>None\<close> when it returns an error), \<open>Decode\<close> is decoding a text
  into an existing value (\<open>None\<close> when it returns an error; fields the text does not
  mention keep what the value had).
\<close>

record 'a json_codec =
  Marshal :: "'a \<Rightarrow> string option"
  Decode :: "string \<Rightarrow> 'a \<Rightarrow> 'a option"

type_synonym 'a iface = "('a json_codec \<times> 'a) option"

subsection \<open>HTTP\<close>

record request =
  Method :: string
  URL :: string
  RawQuery :: string
  Header :: "(string \<times> string) list"
  Body :: "string option"

record response =
  StatusCode :: int
  Status :: string
  RespBody :: string

subsection \<open>Libraries and the package \<open>types\<close>\<close>

text \<open>
  What main.go uses and does not define, taken as parameters of the model:
  \<open>CookieName\<close> and \<open>CurrentVersion\<close> of the package \<open>types\<close>;
  \<open>semver.MustParse\<close> (\<open>None\<close> when it panics) and the method \<open>GT\<close> of the
  versions it returns; whether \<open>http.NewRequest\<close> returns an error for a method and
  a URL; \<open>url.Values.Encode\<close> on the parameters added to a query;
  \<open>filepath.Join\<close>; and the JSON behaviour of the three types main.go itself
  encodes or decodes. \<open>encoding/json\<close> sees only the exported fields of \<open>Config\<close>,
  so its behaviour on \<open>Config\<close> is a codec of the pair (Host, Cookie).
\<close>

record 'v lib =
  CookieName :: string
  CurrentVersion :: Version_t
  MustParse :: "string \<Rightarrow> 'v option"
  GT :: "'v \<Rightarrow> 'v \<Rightarrow> bool"
  NewRequest_err :: "string \<Rightarrow> string \<Rightarrow> bool"
  EncodeQuery :: "(string \<times> string) list \<Rightarrow> string"
  Join :: "string \<Rightarrow> string \<Rightarrow> string"
  jsonConfig :: "(string \<times> string) json_codec"
  jsonVersion :: "Version_t json_codec"
  jsonUser :: "User_t json_codec"

subsection \<open>The world\<close>

text \<open>
  Everything the program does to the outside is an event of the trace: a line of the
  logger, a line on standard output, bytes copied to standard error, a request handed
  to \<open>http.DefaultClient.Do\<close> with what \<open>Do\<close> returned (\<open>Inl\<close> its error), and a
  call of \<open>ioutil.WriteFile\<close> with the path and the bytes.
\<close>

datatype event =
  Log string
  | Print string
  | Stderr string
  | Sent request "string + response"
  | Write string string

text \<open>How a call of \<open>ioutil.WriteFile\<close> ends: the file holds the bytes, or the call
  returns an error and leaves at the path what the environment says (the old file
  when opening failed, a truncated one when writing failed).\<close>

datatype write_outcome = WriteOk | WriteErr "string option"

text \<open>What \<open>fmt.Scanln(&cookie)\<close> returns (the count and whether the error is
  non-nil) and the token it stored.\<close>

record scan =
  scan_n :: int
  scan_err :: bool
  scan_token :: string

record world =
  Config :: Config_t
  HOME :: string
  USERPROFILE :: string
  files :: "string \<Rightarrow> string option"
  write_result :: "string \<Rightarrow> string \<Rightarrow> write_outcome"
  Scanln :: scan
  server :: "nat \<Rightarrow> request \<Rightarrow> string + response"
  trace :: "event list"

datatype abort = Panicked | Exited

datatype 'a result = Ok 'a | Abort abort

fun is_Sent :: "event \<Rightarrow> bool" where
  "is_Sent (Sent _ _) = True"
| "is_Sent _ = False"

fun is_Write :: "event \<Rightarrow> bool" where
  "is_Write (Write _ _) = True"
| "is_Write _ = False"

text \<open>The server may answer the n-th request of the process differently from the
  ones before: it is asked with the number of requests sent so far.\<close>

definition nsent :: "event list \<Rightarrow> nat" where
  "nsent evs = length (filter is_Sent evs)"

definition emit :: "event \<Rightarrow> world \<Rightarrow> world" where
  "emit e w = w\<lparr>trace := trace w @ [e]\<rparr>"

text \<open>\<open>log.Printf\<close> writes a line; \<open>log.Fatalf\<close> writes it and calls \<open>os.Exit(1)\<close>;
  \<open>log.Panicf\<close> writes it and panics. The text of an error value (\<open>%v\<close> of an
  \<open>err\<close>) is the library's and is left out of the line.\<close>

definition logPrintf :: "string \<Rightarrow> world \<Rightarrow> world" where
  "logPrintf s w = emit (Log s) w"

definition logFatalf :: "string \<Rightarrow> world \<Rightarrow> 'a result \<times> world" where
  "logFatalf s w = (Abort Exited, emit (Log s) w)"

definition logPanicf :: "string \<Rightarrow> world \<Rightarrow> 'a result \<times> world" where
  "logPanicf s w = (Abort Panicked, emit (Log s) w)"

text \<open>\<open>strings.HasPrefix(s, prefix)\<close>.\<close>

definition HasPrefix :: "string \<Rightarrow> string \<Rightarrow> bool" where
  "HasPrefix s p = (length p \<le> length s \<and> take (length p) s = p)"

subsection \<open>doRequest\<close>

text \<open>
  \<open>doRequest\<close> is one function of main.go. The model cuts it where its own comments
  cut it and names the pieces: the request as \<open>http.NewRequest\<close>, "add any
  parameters" and "set the headers" leave it; the line of \<open>Config.apiReport\<close>;
  "upload the payload if any"; \<open>http.DefaultClient.Do\<close>; and "parse the result if
  any". \<open>doRequest\<close> below runs them in the order of the source.

  \<open>params\<close> is a Go map, \<open>None\<close> when \<open>nil\<close>; the request carries what
  \<open>Encode\<close> makes of the added parameters.
\<close>

definition newRequest ::
  "'v lib \<Rightarrow> string \<Rightarrow> string \<Rightarrow> (string \<times> string) list option \<Rightarrow> string \<Rightarrow> request" where
  "newRequest d method url params cookie =
     \<lparr>Method = method, URL = url,
      RawQuery = (case params of
                    None \<Rightarrow> []
                  | Some ps \<Rightarrow> if ps \<noteq> [] then EncodeQuery d ps else []),
      Header = [(''Accept'', ''application/json''), (''Cookie'', cookie)],
      Body = None\<rparr>"

definition report :: "string \<Rightarrow> request \<Rightarrow> world \<Rightarrow> world" where
  "report method req w =
     (if apiReport (Config w)
      then logPrintf (method @ '' '' @ URL req @
             (if RawQuery req = [] then [] else ''?'' @ RawQuery req)) w
      else w)"

definition uploadPayload :: "string \<Rightarrow> 'u iface \<Rightarrow> request \<Rightarrow> world \<Rightarrow> request result \<times> world" where
  "uploadPayload method upload req w =
     (case upload of
        None \<Rightarrow> (Ok req, w)
      | Some (cu, u) \<Rightarrow>
          if method = ''POST'' \<or> method = ''PUT'' then
            (case Marshal cu u of
               None \<Rightarrow> logFatalf ''doRequest: JSON error encoding object to upload'' w
             | Some payload \<Rightarrow>
                 (Ok (req\<lparr>Header := Header req @ [(''Content-Type'', ''application/json'')],
                          Body := Some payload\<rparr>),
                  if apiDump (Config w) then logPrintf (''Request data: '' @ payload) w else w))
          else (Ok req, w))"

definition Do :: "request \<Rightarrow> world \<Rightarrow> (string + response) \<times> world" where
  "Do req w =
     (let answer = server w (nsent (trace w)) req in (answer, emit (Sent req answer) w))"

text \<open>The function returns a bool and fills \<open>download\<close> through the pointer; the
  model returns the bool with the value the download target holds afterwards
  (\<open>None\<close> for a \<open>nil\<close> target).\<close>

definition parseResult :: "'d iface \<Rightarrow> response \<Rightarrow> world \<Rightarrow> (bool \<times> 'd option) result \<times> world" where
  "parseResult download resp w =
     (case download of
        None \<Rightarrow> (Ok (False, None), w)
      | Some (cd, target) \<Rightarrow>
          (case Decode cd (RespBody resp) target of
             None \<Rightarrow> logFatalf ''failed to parse result object from server'' w
           | Some obj \<Rightarrow>
               if apiDump (Config w) then
                 (case Marshal cd obj of
                    None \<Rightarrow> logFatalf ''doRequest: JSON error encoding downloaded object'' w
                  | Some raw \<Rightarrow> (Ok (True, Some obj), logPrintf (''Response data: '' @ raw) w))
               else (Ok (True, Some obj), w)))"

definition doRequest ::
  "'v lib \<Rightarrow> string \<Rightarrow> (string \<times> string) list option \<Rightarrow> string \<Rightarrow> 'u iface \<Rightarrow> 'd iface \<Rightarrow>
     bool \<Rightarrow> world \<Rightarrow> (bool \<times> 'd option) result \<times> world" where
  "doRequest d path params method upload download notfoundokay w =
    (if \<not> HasPrefix path ''/'' then
       logPanicf ''doRequest path must start with /'' w
     else if method \<noteq> ''GET'' \<and> method \<noteq> ''POST'' \<and> method \<noteq> ''PUT'' \<and> method \<noteq> ''DELETE'' then
       logPanicf ''doRequest only recognizes GET, POST, PUT, and DELETE methods'' w
     else
       let url = ''https://'' @ Host (Config w) @ ''/v2'' @ path in
       if NewRequest_err d method url then
         logFatalf ''error creating http request'' w
       else
         let req = newRequest d method url params (Cookie (Config w)) in
         (case uploadPayload method upload req (report method req w) of
            (Abort k, w2) \<Rightarrow> (Abort k, w2)
          | (Ok req, w2) \<Rightarrow>
              (case Do req w2 of
                 (Inl err, w3) \<Rightarrow> logFatalf (''error connecting to '' @ Host (Config w3)) w3
               | (Inr resp, w3) \<Rightarrow>
                   if notfoundokay \<and> StatusCode resp = 404 then
                     (Ok (False, map_option snd download), w3)
                   else if StatusCode resp \<noteq> 200 then
                     logFatalf ''giving up''
                       (emit (Stderr (RespBody resp))
                         (logPrintf (''unexpected status from '' @ url @ '': '' @ Status resp) w3))
                   else parseResult download resp w3)))"

text \<open>The four wrappers. \<open>mustGetObject\<close>, \<open>mustPostObject\<close> and \<open>mustPutObject\<close>
  drop the bool; what is left of the call is the download target.\<close>

definition drop_bool :: "(bool \<times> 'd option) result \<times> world \<Rightarrow> 'd option result \<times> world" where
  "drop_bool r = (case r of (Ok (b, obj), w) \<Rightarrow> (Ok obj, w) | (Abort k, w) \<Rightarrow> (Abort k, w))"

definition mustGetObject ::
  "'v lib \<Rightarrow> string \<Rightarrow> (string \<times> string) list option \<Rightarrow> 'd iface \<Rightarrow> world \<Rightarrow> 'd option result \<times> world" where
  "mustGetObject d path params download w =
     drop_bool (doRequest d path params ''GET'' (None :: unit iface) download False w)"

definition getObject ::
  "'v lib \<Rightarrow> string \<Rightarrow> (string \<times> string) list option \<Rightarrow> 'd iface \<Rightarrow> world \<Rightarrow>
     (bool \<times> 'd option) result \<times> world" where
  "getObject d path params download w =
     doRequest d path params ''GET'' (None :: unit iface) download True w"

definition mustPostObject ::
  "'v lib \<Rightarrow> string \<Rightarrow> (string \<times> string) list option \<Rightarrow> 'u iface \<Rightarrow> 'd iface \<Rightarrow> world \<Rightarrow>
     'd option result \<times> world" where
  "mustPostObject d path params upload download w =
     drop_bool (doRequest d path params ''POST'' upload download False w)"

definition mustPutObject ::
  "'v lib \<Rightarrow> string \<Rightarrow> (string \<times> string) list option \<Rightarrow> 'u iface \<Rightarrow> 'd iface \<Rightarrow> world \<Rightarrow>
     'd option result \<times> world" where
  "mustPutObject d path params upload download w =
     drop_bool (doRequest d path params ''PUT'' upload download False w)"

subsection \<open>checkVersion\<close>

text \<open>\<open>semver.MustParse\<close> panics on a string that is no semantic version; the
  recommended version is parsed only after the required one has been compared.\<close>

definition checkVersion :: "'v lib \<Rightarrow> world \<Rightarrow> unit result \<times> world" where
  "checkVersion d w =
    (case mustGetObject d ''/version'' None (Some (jsonVersion d, new_Version)) w of
       (Abort k, w1) \<Rightarrow> (Abort k, w1)
     | (Ok obj, w1) \<Rightarrow>
         let server = (case obj of Some v \<Rightarrow> v | None \<Rightarrow> new_Version) in
         (case MustParse d (Version (CurrentVersion d)) of
            None \<Rightarrow> (Abort Panicked, w1)
          | Some grindCurrent \<Rightarrow>
              (case MustParse d (GrindVersionRequired server) of
                 None \<Rightarrow> (Abort Panicked, w1)
               | Some grindRequired \<Rightarrow>
                   if GT d grindRequired grindCurrent then
                     logFatalf ''  you must upgrade to continue''
                       (logPrintf (''this is grind version '' @ Version (CurrentVersion d) @
                          '', but the server requires '' @ GrindVersionRequired server @
                          '' or higher'') w1)
                   else
                     (case MustParse d (GrindVersionRecommended server) of
                        None \<Rightarrow> (Abort Panicked, w1)
                      | Some grindRecommended \<Rightarrow>
                          if GT d grindRecommended grindCurrent then
                            (Ok (),
                             logPrintf ''  please upgrade as soon as possible''
                               (logPrintf (''this is grind version '' @ Version (CurrentVersion d) @
                                  '', but the server recommends '' @
                                  GrindVersionRecommended server @ '' or higher'') w1))
                          else (Ok (), w1)))))"

subsection \<open>mustLoadConfig and mustWriteConfig\<close>

text \<open>\<open>os.Getenv\<close> returns the empty string for a variable that is not set.
  \<open>ioutil.ReadFile\<close> returns an error exactly where \<open>files\<close> has nothing to read.
  \<open>json.Unmarshal(raw, &Config)\<close> decodes into the package variable, whose flags
  it cannot see.\<close>

definition mustLoadConfig :: "'v lib \<Rightarrow> Command \<Rightarrow> world \<Rightarrow> unit result \<times> world" where
  "mustLoadConfig d cmd w =
    (let home = HOME w;
         home = (if home = [] then USERPROFILE w else home)
     in
     if home = [] then logFatalf ''Unable to locate home directory, giving up'' w
     else
       let configFile = Join d home perUserDotFile in
       (case files w configFile of
          None \<Rightarrow>
            logFatalf (''Unable to load config file; try running '' @ [CHR 0x22] @ ''grind init'' @
              [CHR 0x22]) w
        | Some raw \<Rightarrow>
            (case Decode (jsonConfig d) raw (Host (Config w), Cookie (Config w)) of
               None \<Rightarrow>
                 logFatalf (''you may wish to try deleting the file and running '' @ [CHR 0x22] @
                     ''grind init'' @ [CHR 0x22] @ '' again'')
                   (logPrintf (''failed to parse '' @ configFile) w)
             | Some (h, c) \<Rightarrow>
                 let w1 = w\<lparr>Config := (Config w)\<lparr>Host := h, Cookie := c\<rparr>\<rparr>;
                     w2 = (if flag_api cmd = ''true''
                           then w1\<lparr>Config := (Config w1)\<lparr>apiReport := True\<rparr>\<rparr> else w1);
                     w3 = (if flag_api_dump cmd = ''true''
                           then w2\<lparr>Config := (Config w2)\<lparr>apiReport := True, apiDump := True\<rparr>\<rparr>
                           else w2)
                 in checkVersion d w3)))"

definition mustWriteConfig :: "'v lib \<Rightarrow> world \<Rightarrow> unit result \<times> world" where
  "mustWriteConfig d w =
    (let home = HOME w;
         home = (if home = [] then USERPROFILE w else home)
     in
     if home = [] then logFatalf ''Unable to locate home directory, giving up'' w
     else
       let configFile = Join d home perUserDotFile in
       (case Marshal (jsonConfig d) (Host (Config w), Cookie (Config w)) of
          None \<Rightarrow> logFatalf ''JSON error encoding cookie file'' w
        | Some raw0 \<Rightarrow>
            let raw = raw0 @ [CHR 0x0A];
                w1 = emit (Write configFile raw) w
            in
            (case write_result w configFile raw of
               WriteErr left \<Rightarrow>
                 logFatalf (''error writing '' @ configFile) (w1\<lparr>files := (files w1)(configFile := left)\<rparr>)
             | WriteOk \<Rightarrow> (Ok (), w1\<lparr>files := (files w1)(configFile \<mapsto> raw)\<rparr>))))"

subsection \<open>CommandInit\<close>

definition init_prompt :: "string \<Rightarrow> string \<Rightarrow> string" where
  "init_prompt loadedHost cookieName =
     ''Please follow these steps:'' @ [CHR 0x0A, CHR 0x0A] @
     ''1.  Use Canvas to load a CodeGrinder window'' @ [CHR 0x0A] @
     ''2.  Open a new tab in your browser and copy this URL into the address bar:'' @
     [CHR 0x0A, CHR 0x0A] @
     ''    https://'' @ loadedHost @ ''/v2/users/me/cookie'' @ [CHR 0x0A, CHR 0x0A] @
     ''3.  The browser will display something of the form: '' @ cookieName @ ''=...'' @ [CHR 0x0A] @
     ''4.  Copy that entire string to the clipboard and paste it below.'' @ [CHR 0x0A, CHR 0x0A] @
     ''Paste here: ''"

definition CommandInit :: "'v lib \<Rightarrow> Command \<Rightarrow> world \<Rightarrow> unit result \<times> world" where
  "CommandInit d cmd w =
    (case mustLoadConfig d cmd w of
       (Abort k, w1) \<Rightarrow> (Abort k, w1)
     | (Ok u, w1) \<Rightarrow>
         let loadedHost = (if Host (Config w1) \<noteq> [] then Host (Config w1) else defaultHost);
             w2 = emit (Print (init_prompt loadedHost (CookieName d))) w1;
             cookie = scan_token (Scanln w2)
         in
         if scan_err (Scanln w2) then
           logFatalf ''error encountered while reading the cookie you pasted'' w2
         else if scan_n (Scanln w2) \<noteq> 1 then
           logFatalf ''failed to read the cookie you pasted; please try again'' w2
         else if \<not> HasPrefix cookie (CookieName d @ ''='') then
           logFatalf (''the cookie must start with '' @ CookieName d @
             ''=; perhaps you copied the wrong thing?'') w2
         else
           let w3 = w2\<lparr>Config := (Config w2)\<lparr>Cookie := cookie, Host := loadedHost\<rparr>\<rparr> in
           (case checkVersion d w3 of
              (Abort k, w4) \<Rightarrow> (Abort k, w4)
            | (Ok u, w4) \<Rightarrow>
                (case mustGetObject d ''/users/me'' None (Some (jsonUser d, new_User)) w4 of
                   (Abort k, w5) \<Rightarrow> (Abort k, w5)
                 | (Ok obj, w5) \<Rightarrow>
                     let user = (case obj of Some v \<Rightarrow> v | None \<Rightarrow> new_User) in
                     (case mustWriteConfig d w5 of
                        (Abort k, w6) \<Rightarrow> (Abort k, w6)
                      | (Ok u, w6) \<Rightarrow>
                          (Ok (), logPrintf (''cookie verified and saved: welcome '' @ Name user) w6)))))"

section \<open>A concrete environment\<close>

text \<open>
  The theorems below hold for every behaviour of the libraries. To run the model on
  concrete inputs the parameters are instantiated here with small stand-ins: versions
  of the plain form MAJOR.MINOR.PATCH compared component by component, and JSON
  objects whose members are strings without escapes, laid out the way
  \<open>json.MarshalIndent(v, "", "    ")\<close> lays them out. The stand-ins are used in the
  examples only.
\<close>

subsection \<open>Plain semantic versions\<close>

definition digit :: "char \<Rightarrow> bool" where
  "digit c = (c \<in> set ''0123456789'')"

definition numeral_of :: "string \<Rightarrow> nat option" where
  "numeral_of s =
     (if s = [] \<or> \<not> list_all digit s \<or> (length s > 1 \<and> hd s = CHR ''0'') then None
      else Some (foldl (\<lambda>n c. 10 * n + (of_char c - 48)) 0 s))"

fun split_on :: "char \<Rightarrow> string \<Rightarrow> string list" where
  "split_on sep [] = [[]]"
| "split_on sep (c # cs) =
     (if c = sep then [] # split_on sep cs
      else (case split_on sep cs of p # ps \<Rightarrow> (c # p) # ps | [] \<Rightarrow> [[c]]))"

definition plain_MustParse :: "string \<Rightarrow> (nat \<times> nat \<times> nat) option" where
  "plain_MustParse s =
     (case map numeral_of (split_on CHR ''.'' s) of
        [Some major, Some minor, Some patch] \<Rightarrow> Some (major, minor, patch)
      | _ \<Rightarrow> None)"

fun plain_GT :: "nat \<times> nat \<times> nat \<Rightarrow> nat \<times> nat \<times> nat \<Rightarrow> bool" where
  "plain_GT (a, b, c) (x, y, z) = (a > x \<or> (a = x \<and> (b > y \<or> (b = y \<and> c > z))))"

subsection \<open>Flat JSON objects\<close>

definition quoted :: "string \<Rightarrow> string" where
  "quoted s = [CHR 0x22] @ s @ [CHR 0x22]"

definition plain_text :: "string \<Rightarrow> bool" where
  "plain_text s = list_all (\<lambda>c. c \<noteq> CHR 0x22 \<and> c \<noteq> CHR 0x5C \<and> 32 \<le> (of_char c :: nat)) s"

fun flat_members :: "(string \<times> string) list \<Rightarrow> string" where
  "flat_members [] = []"
| "flat_members [(k, v)] = ''    '' @ quoted k @ '': '' @ quoted v @ [CHR 0x0A]"
| "flat_members ((k, v) # kvs) =
     ''    '' @ quoted k @ '': '' @ quoted v @ '','' @ [CHR 0x0A] @ flat_members kvs"

definition flat_Marshal :: "(string \<times> string) list \<Rightarrow> string option" where
  "flat_Marshal kvs =
     (if list_all (\<lambda>(k, v). plain_text k \<and> plain_text v) kvs
      then Some (if kvs = [] then ''{}'' else ''{'' @ [CHR 0x0A] @ flat_members kvs @ ''}'')
      else None)"

definition squeeze :: "string \<Rightarrow> string" where
  "squeeze s = filter (\<lambda>c. c \<notin> set [CHR 0x20, CHR 0x09, CHR 0x0A, CHR 0x0D]) s"

fun flat_pieces :: "string list \<Rightarrow> (string \<times> string) list option" where
  "flat_pieces (k # colon # v # sep # rest) =
     (if squeeze colon \<noteq> '':'' \<or> \<not> plain_text k \<or> \<not> plain_text v then None
      else if squeeze sep = '','' then map_option (Cons (k, v)) (flat_pieces rest)
      else if squeeze sep = ''}'' \<and> rest = [] then Some [(k, v)]
      else None)"
| "flat_pieces _ = None"

definition flat_Decode :: "string \<Rightarrow> (string \<times> string) list option" where
  "flat_Decode text =
     (case split_on (CHR 0x22) text of
        [only] \<Rightarrow> if squeeze only = ''{}'' then Some [] else None
      | first # rest \<Rightarrow> if squeeze first = ''{'' then flat_pieces rest else None
      | [] \<Rightarrow> None)"

definition field :: "(string \<times> string) list \<Rightarrow> string \<Rightarrow> string \<Rightarrow> string" where
  "field kvs k old = (case map_of kvs k of Some v \<Rightarrow> v | None \<Rightarrow> old)"

definition flat_Config :: "(string \<times> string) json_codec" where
  "flat_Config =
     \<lparr>Marshal = (\<lambda>(h, c). flat_Marshal [(''host'', h), (''cookie'', c)]),
      Decode = (\<lambda>text (h, c). map_option (\<lambda>kvs. (field kvs ''host'' h, field kvs ''cookie'' c))
                  (flat_Decode text))\<rparr>"

definition flat_Version :: "Version_t json_codec" where
  "flat_Version =
     \<lparr>Marshal = (\<lambda>v. flat_Marshal [(''version'', Version v),
                    (''grindVersionRequired'', GrindVersionRequired v),
                    (''grindVersionRecommended'', GrindVersionRecommended v)]),
      Decode = (\<lambda>text v. map_option (\<lambda>kvs.
                   \<lparr>Version = field kvs ''version'' (Version v),
                    GrindVersionRequired = field kvs ''grindVersionRequired'' (GrindVersionRequired v),
                    GrindVersionRecommended =
                      field kvs ''grindVersionRecommended'' (GrindVersionRecommended v)\<rparr>)
                  (flat_Decode text))\<rparr>"

definition flat_User :: "User_t json_codec" where
  "flat_User =
     \<lparr>Marshal = (\<lambda>u. flat_Marshal [(''name'', Name u)]),
      Decode = (\<lambda>text u. map_option (\<lambda>kvs. \<lparr>Name = field kvs ''name'' (Name u)\<rparr>)
                  (flat_Decode text))\<rparr>"

text \<open>A type that JSON decodes into and cannot encode: \<open>json.MarshalIndent\<close>
  returns an error for it, as it does for a Go struct with an exported channel
  field or for a type whose \<open>MarshalJSON\<close> fails.\<close>

definition undumpable_User :: "User_t json_codec" where
  "undumpable_User = \<lparr>Marshal = (\<lambda>u. None), Decode = Decode flat_User\<rparr>"

subsection \<open>A client, a server and a home directory\<close>

text \<open>A client of version \<open>cur\<close> whose cookie is called \<open>codegrinder\<close>.\<close>

definition ex_lib :: "string \<Rightarrow> (nat \<times> nat \<times> nat) lib" where
  "ex_lib cur =
     \<lparr>CookieName = ''codegrinder'',
      CurrentVersion = \<lparr>Version = cur, GrindVersionRequired = cur, GrindVersionRecommended = cur\<rparr>,
      MustParse = plain_MustParse,
      GT = plain_GT,
      NewRequest_err = (\<lambda>m u. False),
      EncodeQuery = (\<lambda>ps. concat (map (\<lambda>(k, v). k @ ''='' @ v @ ''&'') ps)),
      Join = (\<lambda>dir name. dir @ ''/'' @ name),
      jsonConfig = flat_Config,
      jsonVersion = flat_Version,
      jsonUser = flat_User\<rparr>"

text \<open>A server that answers every request with the same status and body.\<close>

definition always :: "int \<Rightarrow> string \<Rightarrow> nat \<Rightarrow> request \<Rightarrow> string + response" where
  "always code body n req = Inr \<lparr>StatusCode = code, Status = [], RespBody = body\<rparr>"

text \<open>A server that knows \<open>/version\<close> and \<open>/users/me\<close> and nothing else.\<close>

definition ex_version_body :: "string \<Rightarrow> string \<Rightarrow> string" where
  "ex_version_body required recommended =
     ''{'' @ quoted ''version'' @ '':'' @ quoted ''2.2.0'' @ '','' @
     quoted ''grindVersionRequired'' @ '':'' @ quoted required @ '','' @
     quoted ''grindVersionRecommended'' @ '':'' @ quoted recommended @ ''}''"

definition ex_user_body :: string where
  "ex_user_body = ''{'' @ quoted ''name'' @ '':'' @ quoted ''Ada'' @ ''}''"

definition ex_server :: "string \<Rightarrow> string \<Rightarrow> nat \<Rightarrow> request \<Rightarrow> string + response" where
  "ex_server required recommended n req =
     (if URL req = ''https://example.org/v2/version'' then
        Inr \<lparr>StatusCode = 200, Status = ''200 OK'', RespBody = ex_version_body required recommended\<rparr>
      else if URL req = ''https://example.org/v2/users/me'' then
        Inr \<lparr>StatusCode = 200, Status = ''200 OK'', RespBody = ex_user_body\<rparr>
      else Inr \<lparr>StatusCode = 404, Status = ''404 Not Found'', RespBody = []\<rparr>)"

text \<open>A fresh process (\<open>Config\<close> is the zero value) of a user whose home directory
  holds the files \<open>fs\<close>, who pastes \<open>token\<close> when asked, against the server \<open>srv\<close>.\<close>

definition ex_world ::
  "(string \<Rightarrow> string option) \<Rightarrow> string \<Rightarrow> (nat \<Rightarrow> request \<Rightarrow> string + response) \<Rightarrow> world" where
  "ex_world fs token srv =
     \<lparr>Config = Config_zero, HOME = ''/home/ada'', USERPROFILE = [], files = fs,
      write_result = (\<lambda>path raw. WriteOk),
      Scanln = \<lparr>scan_n = 1, scan_err = False, scan_token = token\<rparr>,
      server = srv, trace = []\<rparr>"

definition ex_config_file :: "string \<Rightarrow> string \<Rightarrow> string \<Rightarrow> string option" where
  "ex_config_file host cookie path =
     (if path = ''/home/ada/.codegrinderrc''
      then Some (''{'' @ [CHR 0x0A] @ ''    '' @ quoted ''host'' @ '': '' @ quoted host @ '','' @
             [CHR 0x0A] @ ''    '' @ quoted ''cookie'' @ '': '' @ quoted cookie @ [CHR 0x0A] @ ''}'' @
             [CHR 0x0A])
      else None)"

definition no_flags :: Command where
  "no_flags = \<lparr>flag_api = ''false'', flag_api_dump = ''false''\<rparr>"

section \<open>Proof devices\<close>

text \<open>Names for parts of the model that the proofs take apart.\<close>

text \<open>The URL \<open>doRequest\<close> builds for a path.\<close>

definition api_url :: "world \<Rightarrow> string \<Rightarrow> string" where
  "api_url w path = ''https://'' @ Host (Config w) @ ''/v2'' @ path"

text \<open>\<open>doRequest\<close> up to the call of \<open>Do\<close>: the request, and the world with what
  was logged on the way.\<close>

definition prepare ::
  "'v lib \<Rightarrow> string \<Rightarrow> (string \<times> string) list option \<Rightarrow> string \<Rightarrow> 'u iface \<Rightarrow> world \<Rightarrow>
     request result \<times> world" where
  "prepare d path params method upload w =
     uploadPayload method upload
       (newRequest d method (api_url w path) params (Cookie (Config w)))
       (report method (newRequest d method (api_url w path) params (Cookie (Config w))) w)"

text \<open>\<open>doRequest\<close> from the answer of \<open>Do\<close> on.\<close>

definition respond ::
  "string \<Rightarrow> 'd iface \<Rightarrow> bool \<Rightarrow> string + response \<Rightarrow> world \<Rightarrow>
     (bool \<times> 'd option) result \<times> world" where
  "respond url download notfoundokay answer w3 =
     (case answer of
        Inl err \<Rightarrow> logFatalf (''error connecting to '' @ Host (Config w3)) w3
      | Inr resp \<Rightarrow>
          if notfoundokay \<and> StatusCode resp = 404 then (Ok (False, map_option snd download), w3)
          else if StatusCode resp \<noteq> 200 then
            logFatalf ''giving up''
              (emit (Stderr (RespBody resp))
                (logPrintf (''unexpected status from '' @ url @ '': '' @ Status resp) w3))
          else parseResult download resp w3)"

definition valid_method :: "string \<Rightarrow> bool" where
  "valid_method method \<longleftrightarrow> method \<in> set [''GET'', ''POST'', ''PUT'', ''DELETE'']"

text \<open>What the server answers to the next request of a world.\<close>

definition answer_to :: "world \<Rightarrow> request \<Rightarrow> string + response" where
  "answer_to w req = server w (nsent (trace w)) req"

text \<open>\<open>frame w evs w'\<close>: the world \<open>w'\<close> is \<open>w\<close> after the events \<open>evs\<close>, with
  possibly another \<open>Config\<close>; the environment is the same. An event is a note when
  it is neither a request nor a write.\<close>

definition frame :: "world \<Rightarrow> event list \<Rightarrow> world \<Rightarrow> bool" where
  "frame w evs w' \<longleftrightarrow> w' = w\<lparr>Config := Config w', trace := trace w @ evs\<rparr>"

definition is_note :: "event \<Rightarrow> bool" where
  "is_note e \<longleftrightarrow> \<not> is_Sent e \<and> \<not> is_Write e"

text \<open>\<open>CommandInit\<close> after \<open>mustLoadConfig\<close>: the host it prompts with, the world
  after the prompt, whether the token passes the three tests, and the world in which
  the version gate then runs.\<close>

definition loadedHost :: "world \<Rightarrow> string" where
  "loadedHost w = (if Host (Config w) \<noteq> [] then Host (Config w) else defaultHost)"

definition prompted :: "'v lib \<Rightarrow> world \<Rightarrow> world" where
  "prompted d w = emit (Print (init_prompt (loadedHost w) (CookieName d))) w"

definition token_ok :: "'v lib \<Rightarrow> world \<Rightarrow> bool" where
  "token_ok d w \<longleftrightarrow>
     \<not> scan_err (Scanln w) \<and> scan_n (Scanln w) = 1 \<and>
     HasPrefix (scan_token (Scanln w)) (CookieName d @ ''='')"

definition configured :: "'v lib \<Rightarrow> world \<Rightarrow> world" where
  "configured d w =
     (prompted d w)\<lparr>Config := (Config w)\<lparr>Cookie := scan_token (Scanln w), Host := loadedHost w\<rparr>\<rparr>"

text \<open>A trace without the lines of the logger.\<close>

fun is_Log :: "event \<Rightarrow> bool" where
  "is_Log (Log _) = True"
| "is_Log _ = False"

definition unlogged :: "event list \<Rightarrow> event list" where
  "unlogged evs = filter (\<lambda>e. \<not> is_Log e) evs"

text \<open>Two worlds that differ at most in the two flags and in the lines of the
  logger.\<close>

definition same_but_logs :: "world \<Rightarrow> world \<Rightarrow> bool" where
  "same_but_logs w v \<longleftrightarrow>
     Host (Config v) = Host (Config w) \<and> Cookie (Config v) = Cookie (Config w) \<and>
     HOME v = HOME w \<and> USERPROFILE v = USERPROFILE w \<and> files v = files w \<and>
     write_result v = write_result w \<and> Scanln v = Scanln w \<and> server v = server w \<and>
     unlogged (trace v) = unlogged (trace w)"

section \<open>Lemmas\<close>

lemma HasPrefix_iff: "HasPrefix s p \<longleftrightarrow> (\<exists>t. s = p @ t)"
  unfolding HasPrefix_def
  by (metis append_eq_conv_conj append_take_drop_id length_append le_add1)

lemma doRequest_unfold:
  "doRequest d path params method upload download notfoundokay w =
    (if \<not> HasPrefix path ''/'' then logPanicf ''doRequest path must start with /'' w
     else if \<not> valid_method method then
       logPanicf ''doRequest only recognizes GET, POST, PUT, and DELETE methods'' w
     else if NewRequest_err d method (api_url w path) then
       logFatalf ''error creating http request'' w
     else
       (case prepare d path params method upload w of
          (Abort k, w2) \<Rightarrow> (Abort k, w2)
        | (Ok req, w2) \<Rightarrow>
            respond (api_url w path) download notfoundokay (answer_to w2 req)
              (emit (Sent req (answer_to w2 req)) w2)))"
proof -
  have m: "(method \<noteq> ''GET'' \<and> method \<noteq> ''POST'' \<and> method \<noteq> ''PUT'' \<and> method \<noteq> ''DELETE'')
      = (\<not> valid_method method)"
    by (simp add: valid_method_def)
  have r: "\<And>req w2. (case Do req w2 of
                 (Inl err, w3) \<Rightarrow> logFatalf (''error connecting to '' @ Host (Config w3)) w3
               | (Inr resp, w3) \<Rightarrow>
                   if notfoundokay \<and> StatusCode resp = 404 then
                     (Ok (False, map_option snd download), w3)
                   else if StatusCode resp \<noteq> 200 then
                     logFatalf ''giving up''
                       (emit (Stderr (RespBody resp))
                         (logPrintf (''unexpected status from '' @ api_url w path @ '': '' @ Status resp) w3))
                   else parseResult download resp w3) =
           respond (api_url w path) download notfoundokay (answer_to w2 req)
              (emit (Sent req (answer_to w2 req)) w2)"
    by (simp add: Do_def Let_def respond_def answer_to_def split: sum.split)
  show ?thesis
    unfolding doRequest_def m Let_def prepare_def api_url_def [symmetric] r ..
qed

subsection \<open>Frames\<close>

lemma frame_refl: "frame w [] w"
  by (simp add: frame_def)

lemma frame_trans: "frame w e1 w1 \<Longrightarrow> frame w1 e2 w2 \<Longrightarrow> frame w (e1 @ e2) w2"
  unfolding frame_def
  by (metis (no_types, lifting) append.assoc world.surjective world.update_convs(1,8) world.select_convs(1,8))

lemma frame_emit: "frame w [e] (emit e w)"
  by (simp add: frame_def emit_def)

lemma frame_Config: "frame w [] (w\<lparr>Config := c\<rparr>)"
  by (simp add: frame_def)

lemma frame_fields:
  assumes "frame w evs w'"
  shows "trace w' = trace w @ evs" "files w' = files w" "server w' = server w"
    "HOME w' = HOME w" "USERPROFILE w' = USERPROFILE w" "Scanln w' = Scanln w"
    "write_result w' = write_result w"
proof -
  from assms have eq: "w' = w\<lparr>Config := Config w', trace := trace w @ evs\<rparr>"
    by (simp add: frame_def)
  show "trace w' = trace w @ evs" by (subst eq) simp
  show "files w' = files w" by (subst eq) simp
  show "server w' = server w" by (subst eq) simp
  show "HOME w' = HOME w" by (subst eq) simp
  show "USERPROFILE w' = USERPROFILE w" by (subst eq) simp
  show "Scanln w' = Scanln w" by (subst eq) simp
  show "write_result w' = write_result w" by (subst eq) simp
qed


lemma frame_note: "is_note e \<Longrightarrow> \<exists>evs. frame w evs (emit e w) \<and> list_all is_note evs"
  by (rule exI [of _ "[e]"]) (simp add: frame_emit)

lemma Config_emit [simp]: "Config (emit e w) = Config w"
  by (simp add: emit_def)

lemma Config_logPrintf [simp]: "Config (logPrintf s w) = Config w"
  by (simp add: logPrintf_def)

lemma is_note_simps [simp]:
  "is_note (Log s)" "is_note (Print s)" "is_note (Stderr s)"
  "\<not> is_note (Sent req a)" "\<not> is_note (Write p raw)"
  by (simp_all add: is_note_def)

lemma nsent_notes: "list_all is_note evs \<Longrightarrow> nsent (xs @ evs) = nsent xs"
  by (induction evs) (auto simp: nsent_def is_note_def)

lemma answer_to_frame:
  "frame w evs w' \<Longrightarrow> list_all is_note evs \<Longrightarrow> answer_to w' req = answer_to w req"
  by (simp add: answer_to_def frame_fields nsent_notes)

subsection \<open>The pieces of doRequest\<close>

lemma report_run:
  "\<exists>evs. frame w evs (report method req w) \<and> list_all is_note evs \<and>
     Config (report method req w) = Config w"
proof (cases "apiReport (Config w)")
  case True
  then show ?thesis
    by (intro exI [of _ "[Log (method @ '' '' @ URL req @
          (if RawQuery req = [] then [] else ''?'' @ RawQuery req))]"])
       (simp add: report_def logPrintf_def frame_emit)
next
  case False
  then show ?thesis
    by (intro exI [of _ "[]"]) (simp add: report_def frame_refl)
qed

lemma same_or_logged:
  assumes "w' = w \<or> (\<exists>s. w' = emit (Log s) w)"
  shows "\<exists>evs. frame w evs w' \<and> list_all is_note evs \<and> Config w' = Config w"
  using assms
proof
  assume "w' = w"
  then show ?thesis by (intro exI [of _ "[]"]) (simp add: frame_refl)
next
  assume "\<exists>s. w' = emit (Log s) w"
  then obtain s where "w' = emit (Log s) w" ..
  then show ?thesis by (intro exI [of _ "[Log s]"]) (simp add: frame_emit)
qed

lemma uploadPayload_run:
  assumes "uploadPayload method upload req w = (r, w')"
  shows "\<exists>evs. frame w evs w' \<and> list_all is_note evs \<and> Config w' = Config w"
proof (rule same_or_logged)
  from assms show "w' = w \<or> (\<exists>s. w' = emit (Log s) w)"
    by (auto simp: uploadPayload_def logFatalf_def logPrintf_def
        split: option.splits prod.splits if_splits)
qed

lemma uploadPayload_req:
  assumes "uploadPayload method upload req w = (Ok req', w')"
  shows "Method req' = Method req \<and> URL req' = URL req \<and> RawQuery req' = RawQuery req \<and>
         set (Header req) \<subseteq> set (Header req')"
  using assms
  by (auto simp: uploadPayload_def logFatalf_def split: option.splits prod.splits if_splits)

lemma uploadPayload_abort:
  "uploadPayload method upload req w = (Abort k, w') \<Longrightarrow> k = Exited"
  by (auto simp: uploadPayload_def logFatalf_def split: option.splits prod.splits if_splits)

lemma prepare_run:
  assumes "prepare d path params method upload w = (r, w')"
  shows "\<exists>evs. frame w evs w' \<and> list_all is_note evs \<and> Config w' = Config w"
proof -
  let ?req = "newRequest d method (api_url w path) params (Cookie (Config w))"
  obtain e1 where e1: "frame w e1 (report method ?req w)" "list_all is_note e1"
    "Config (report method ?req w) = Config w"
    using report_run by blast
  from assms obtain e2 where e2: "frame (report method ?req w) e2 w'" "list_all is_note e2"
    "Config w' = Config (report method ?req w)"
    unfolding prepare_def using uploadPayload_run by blast
  from e1 e2 show ?thesis
    by (intro exI [of _ "e1 @ e2"]) (simp add: frame_trans)
qed

lemma prepare_req:
  assumes "prepare d path params method upload w = (Ok req, w')"
  shows "Method req = method \<and> URL req = api_url w path \<and>
         (''Cookie'', Cookie (Config w)) \<in> set (Header req)"
  using uploadPayload_req [OF assms [unfolded prepare_def]]
  by (auto simp: newRequest_def)

lemma prepare_abort: "prepare d path params method upload w = (Abort k, w') \<Longrightarrow> k = Exited"
  unfolding prepare_def by (rule uploadPayload_abort)

lemma parseResult_run:
  assumes "parseResult download resp w = (r, w')"
  shows "\<exists>evs. frame w evs w' \<and> list_all is_note evs \<and> Config w' = Config w"
proof (rule same_or_logged)
  from assms show "w' = w \<or> (\<exists>s. w' = emit (Log s) w)"
    by (auto simp: parseResult_def logFatalf_def logPrintf_def
        split: option.splits prod.splits if_splits)
qed

lemma parseResult_Ok:
  assumes "parseResult download resp w = (Ok x, w')"
  shows "(download = None \<and> x = (False, None)) \<or>
         (\<exists>cd target obj. download = Some (cd, target) \<and>
            Decode cd (RespBody resp) target = Some obj \<and> x = (True, Some obj))"
  using assms
  by (auto simp: parseResult_def logFatalf_def split: option.splits prod.splits if_splits)

lemma parseResult_abort: "parseResult download resp w = (Abort k, w') \<Longrightarrow> k = Exited"
  by (auto simp: parseResult_def logFatalf_def split: option.splits prod.splits if_splits)

lemma respond_run:
  assumes "respond url download notfoundokay answer w = (r, w')"
  shows "\<exists>evs. frame w evs w' \<and> list_all is_note evs \<and> Config w' = Config w"
proof (cases answer)
  case (Inl err)
  with assms show ?thesis
    by (intro exI [of _ "[Log (''error connecting to '' @ Host (Config w))]"])
       (auto simp: respond_def logFatalf_def frame_emit)
next
  case (Inr resp)
  show ?thesis
  proof (cases "notfoundokay \<and> StatusCode resp = 404")
    case True
    with assms Inr show ?thesis
      by (intro exI [of _ "[]"]) (auto simp: respond_def frame_refl)
  next
    case nf: False
    show ?thesis
    proof (cases "StatusCode resp = 200")
      case True
      with assms Inr nf show ?thesis
        by (auto simp: respond_def intro: parseResult_run)
    next
      case False
      with assms Inr nf show ?thesis
        by (intro exI [of _ "[Log (''unexpected status from '' @ url @ '': '' @ Status resp),
              Stderr (RespBody resp), Log ''giving up'']"])
           (auto simp: respond_def logFatalf_def logPrintf_def frame_def emit_def)
    qed
  qed
qed

lemma respond_Ok:
  assumes "respond url download notfoundokay answer w = (Ok x, w')"
  shows "\<exists>resp. answer = Inr resp \<and>
           ((notfoundokay \<and> StatusCode resp = 404 \<and> x = (False, map_option snd download)) \<or>
            (StatusCode resp = 200 \<and>
              ((download = None \<and> x = (False, None)) \<or>
               (\<exists>cd target obj. download = Some (cd, target) \<and>
                  Decode cd (RespBody resp) target = Some obj \<and> x = (True, Some obj)))))"
proof (cases answer)
  case (Inl err)
  with assms show ?thesis by (simp add: respond_def logFatalf_def)
next
  case (Inr resp)
  with assms show ?thesis
    by (auto simp: respond_def logFatalf_def split: if_splits dest: parseResult_Ok)
qed

lemma respond_abort: "respond url download notfoundokay answer w = (Abort k, w') \<Longrightarrow> k = Exited"
  by (auto simp: respond_def logFatalf_def split: sum.splits if_splits dest: parseResult_abort)


subsection \<open>What a call of doRequest leaves in the world\<close>

lemma prepare_Ok:
  assumes "\<forall>cu u. upload = Some (cu, u) \<longrightarrow> Marshal cu u \<noteq> None"
  shows "\<exists>req w2. prepare d path params method upload w = (Ok req, w2)"
  using assms
  by (cases upload) (auto simp: prepare_def uploadPayload_def split: option.splits)

lemma doRequest_quiet:
  assumes run: "doRequest d path params method upload download notfoundokay w = (r, w')"
  shows "\<exists>evs. frame w evs w' \<and> Config w' = Config w \<and> list_all (\<lambda>e. \<not> is_Write e) evs"
proof -
  have early: "w' = emit (Log s) w \<Longrightarrow> ?thesis" for s
    by (intro exI [of _ "[Log s]"]) (simp add: frame_emit)
  show ?thesis
  proof (cases "HasPrefix path ''/'' \<and> valid_method method \<and>
      \<not> NewRequest_err d method (api_url w path)")
    case False
    with run have "\<exists>s. w' = emit (Log s) w"
      by (auto simp: doRequest_unfold logPanicf_def logFatalf_def split: if_splits)
    then show ?thesis using early by blast
  next
    case True
    obtain rp w2 where p: "prepare d path params method upload w = (rp, w2)"
      by (cases "prepare d path params method upload w")
    then obtain e1 where e1: "frame w e1 w2" "list_all is_note e1" "Config w2 = Config w"
      using prepare_run by blast
    show ?thesis
    proof (cases rp)
      case (Abort k)
      with run True p have "w' = w2" by (simp add: doRequest_unfold)
      with e1 show ?thesis
        by (intro exI [of _ e1]) (auto simp: is_note_def list_all_iff)
    next
      case (Ok req)
      let ?w3 = "emit (Sent req (answer_to w2 req)) w2"
      from run True p Ok
      have "respond (api_url w path) download notfoundokay (answer_to w2 req) ?w3 = (r, w')"
        by (simp add: doRequest_unfold)
      then obtain e2 where e2: "frame ?w3 e2 w'" "list_all is_note e2" "Config w' = Config ?w3"
        using respond_run by blast
      have "frame w (e1 @ [Sent req (answer_to w2 req)] @ e2) w'"
        using frame_trans [OF e1(1) frame_trans [OF frame_emit e2(1)]] .
      with e1 e2 show ?thesis
        by (intro exI [of _ "e1 @ [Sent req (answer_to w2 req)] @ e2"])
           (auto simp: is_note_def list_all_iff)
    qed
  qed
qed

lemma doRequest_Ok:
  assumes run: "doRequest d path params method upload download notfoundokay w = (Ok x, w')"
  shows "\<exists>e1 req resp e2.
           frame w (e1 @ Sent req (Inr resp) # e2) w' \<and> list_all is_note e1 \<and> list_all is_note e2 \<and>
           answer_to w req = Inr resp \<and>
           Method req = method \<and> URL req = api_url w path \<and>
           (''Cookie'', Cookie (Config w)) \<in> set (Header req) \<and>
           ((notfoundokay \<and> StatusCode resp = 404 \<and> x = (False, map_option snd download)) \<or>
            (StatusCode resp = 200 \<and>
              ((download = None \<and> x = (False, None)) \<or>
               (\<exists>cd target obj. download = Some (cd, target) \<and>
                  Decode cd (RespBody resp) target = Some obj \<and> x = (True, Some obj)))))"
proof -
  from run have ok: "HasPrefix path ''/''" "valid_method method"
      "\<not> NewRequest_err d method (api_url w path)"
    by (auto simp: doRequest_unfold logPanicf_def logFatalf_def split: if_splits)
  obtain rp w2 where p: "prepare d path params method upload w = (rp, w2)"
    by (cases "prepare d path params method upload w")
  then obtain e1 where e1: "frame w e1 w2" "list_all is_note e1" "Config w2 = Config w"
    using prepare_run by blast
  from run ok p obtain req where rp: "rp = Ok req"
    by (cases rp) (auto simp: doRequest_unfold)
  let ?a = "answer_to w2 req"
  let ?w3 = "emit (Sent req ?a) w2"
  from run ok p rp
  have resp: "respond (api_url w path) download notfoundokay ?a ?w3 = (Ok x, w')"
    by (simp add: doRequest_unfold)
  then obtain e2 where e2: "frame ?w3 e2 w'" "list_all is_note e2"
    using respond_run by blast
  from respond_Ok [OF resp] obtain resp' where r': "?a = Inr resp'"
    "(notfoundokay \<and> StatusCode resp' = 404 \<and> x = (False, map_option snd download)) \<or>
            (StatusCode resp' = 200 \<and>
              ((download = None \<and> x = (False, None)) \<or>
               (\<exists>cd target obj. download = Some (cd, target) \<and>
                  Decode cd (RespBody resp') target = Some obj \<and> x = (True, Some obj))))"
    by blast
  have same: "answer_to w req = ?a"
    using answer_to_frame [OF e1(1) e1(2)] by simp
  have "frame w (e1 @ [Sent req ?a] @ e2) w'"
    using frame_trans [OF e1(1) frame_trans [OF frame_emit e2(1)]] .
  with r' have fr: "frame w (e1 @ Sent req (Inr resp') # e2) w'" by simp
  from prepare_req [OF p [unfolded rp]]
  have rq: "Method req = method" "URL req = api_url w path"
    "(''Cookie'', Cookie (Config w)) \<in> set (Header req)"
    by auto
  from fr e1(2) e2(2) same r' rq show ?thesis by metis
qed

lemma drop_bool_eq:
  "drop_bool p = (r, w') \<longleftrightarrow>
     (\<exists>b obj. p = (Ok (b, obj), w') \<and> r = Ok obj) \<or> (\<exists>k. p = (Abort k, w') \<and> r = Abort k)"
  by (cases p; cases "fst p") (auto simp: drop_bool_def split: result.splits)

lemma mustGetObject_quiet:
  assumes "mustGetObject d path params download w = (r, w')"
  shows "\<exists>evs. frame w evs w' \<and> Config w' = Config w \<and> list_all (\<lambda>e. \<not> is_Write e) evs"
  using assms unfolding mustGetObject_def drop_bool_eq
  by (auto dest: doRequest_quiet)

lemma mustGetObject_Ok:
  assumes "mustGetObject d path params (Some (cd, target)) w = (Ok obj, w')"
  shows "\<exists>e1 req resp e2 v.
           frame w (e1 @ Sent req (Inr resp) # e2) w' \<and> list_all is_note e1 \<and> list_all is_note e2 \<and>
           answer_to w req = Inr resp \<and>
           Method req = ''GET'' \<and> URL req = api_url w path \<and>
           (''Cookie'', Cookie (Config w)) \<in> set (Header req) \<and>
           StatusCode resp = 200 \<and> Decode cd (RespBody resp) target = Some v \<and> obj = Some v"
proof -
  from assms obtain b where
    "doRequest d path params ''GET'' (None :: unit iface) (Some (cd, target)) False w
       = (Ok (b, obj), w')"
    unfolding mustGetObject_def drop_bool_eq by auto
  from doRequest_Ok [OF this] show ?thesis by fastforce
qed

subsection \<open>What checkVersion and the config functions leave in the world\<close>

lemma notes_no_write: "list_all is_note evs \<Longrightarrow> list_all (\<lambda>e. \<not> is_Write e) evs"
  by (simp add: list_all_iff is_note_def)

lemma checkVersion_after_fetch:
  assumes fetch: "mustGetObject d ''/version'' None (Some (jsonVersion d, new_Version)) w = (Ok obj, w1)"
    and run: "checkVersion d w = (r, w')"
  shows "w' = w1 \<or> (\<exists>s t. w' = emit (Log t) (emit (Log s) w1))"
  using run unfolding checkVersion_def fetch
  by (auto simp: Let_def logFatalf_def logPrintf_def split: option.splits if_splits)

lemma checkVersion_abort_fetch:
  assumes fetch: "mustGetObject d ''/version'' None (Some (jsonVersion d, new_Version)) w = (Abort k, w1)"
  shows "checkVersion d w = (Abort k, w1)"
  unfolding checkVersion_def fetch by simp

lemma checkVersion_quiet:
  assumes run: "checkVersion d w = (r, w')"
  shows "\<exists>evs. frame w evs w' \<and> Config w' = Config w \<and> list_all (\<lambda>e. \<not> is_Write e) evs"
proof -
  obtain r1 w1 where fetch:
    "mustGetObject d ''/version'' None (Some (jsonVersion d, new_Version)) w = (r1, w1)"
    by (cases "mustGetObject d ''/version'' None (Some (jsonVersion d, new_Version)) w")
  then obtain e1 where e1: "frame w e1 w1" "Config w1 = Config w"
    "list_all (\<lambda>e. \<not> is_Write e) e1"
    using mustGetObject_quiet by blast
  show ?thesis
  proof (cases r1)
    case (Abort k)
    with fetch run have "w' = w1" by (simp add: checkVersion_abort_fetch)
    with e1 show ?thesis by blast
  next
    case (Ok obj)
    with fetch run
    consider "w' = w1" | s t where "w' = emit (Log t) (emit (Log s) w1)"
      using checkVersion_after_fetch by blast
    then show ?thesis
    proof cases
      case 1
      with e1 show ?thesis by blast
    next
      case 2
      have "frame w1 ([Log s] @ [Log t]) w'"
        unfolding 2 by (rule frame_trans [OF frame_emit frame_emit])
      from frame_trans [OF e1(1) this] e1 2 show ?thesis
        by (intro exI [of _ "e1 @ [Log s] @ [Log t]"]) simp
    qed
  qed
qed

lemma checkVersion_Config: "Config (snd (checkVersion d w)) = Config w"
  using checkVersion_quiet [of d w "fst (checkVersion d w)" "snd (checkVersion d w)"] by auto

lemma checkVersion_Ok:
  assumes run: "checkVersion d w = (Ok u, w')"
  shows "\<exists>e1 req resp e2.
           frame w (e1 @ Sent req (Inr resp) # e2) w' \<and> list_all is_note e1 \<and> list_all is_note e2 \<and>
           answer_to w req = Inr resp \<and> StatusCode resp = 200 \<and>
           Method req = ''GET'' \<and> URL req = api_url w ''/version'' \<and>
           (''Cookie'', Cookie (Config w)) \<in> set (Header req) \<and> Config w' = Config w"
proof -
  obtain r1 w1 where fetch:
    "mustGetObject d ''/version'' None (Some (jsonVersion d, new_Version)) w = (r1, w1)"
    by (cases "mustGetObject d ''/version'' None (Some (jsonVersion d, new_Version)) w")
  from run fetch obtain obj where ok: "r1 = Ok obj"
    by (cases r1) (auto simp: checkVersion_abort_fetch)
  from mustGetObject_Ok [OF fetch [unfolded ok]]
  obtain e1 req resp e2 where g:
    "frame w (e1 @ Sent req (Inr resp) # e2) w1" "list_all is_note e1" "list_all is_note e2"
    "answer_to w req = Inr resp" "StatusCode resp = 200"
    "Method req = ''GET''" "URL req = api_url w ''/version''"
    "(''Cookie'', Cookie (Config w)) \<in> set (Header req)"
    by blast
  have conf: "Config w' = Config w"
    using checkVersion_Config [of d w] run by simp
  from fetch ok run
  consider "w' = w1" | s t where "w' = emit (Log t) (emit (Log s) w1)"
    using checkVersion_after_fetch by blast
  then show ?thesis
  proof cases
    case 1
    with g conf show ?thesis by blast
  next
    case 2
    have "frame w1 ([Log s] @ [Log t]) w'"
      unfolding 2 by (rule frame_trans [OF frame_emit frame_emit])
    from frame_trans [OF g(1) this]
    have "frame w (e1 @ Sent req (Inr resp) # (e2 @ [Log s, Log t])) w'" by simp
    moreover have "list_all is_note (e2 @ [Log s, Log t])" using g(3) by simp
    ultimately show ?thesis using g conf by blast
  qed
qed

text \<open>The world in which mustLoadConfig runs the version gate: the loaded host and
  cookie, the flags of the command line merged in.\<close>

lemma mustLoadConfig_loaded:
  assumes home: "home = (if HOME w = [] then USERPROFILE w else HOME w)" "home \<noteq> []"
    and cfg: "files w (Join d home perUserDotFile) = Some raw"
    and dec: "Decode (jsonConfig d) raw (Host (Config w), Cookie (Config w)) = Some (h, c)"
  shows "mustLoadConfig d cmd w =
           checkVersion d (w\<lparr>Config :=
             \<lparr>Host = h, Cookie = c,
              apiReport = (apiReport (Config w) \<or> flag_api cmd = ''true'' \<or> flag_api_dump cmd = ''true''),
              apiDump = (apiDump (Config w) \<or> flag_api_dump cmd = ''true'')\<rparr>\<rparr>)"
proof -
  have eq: "\<And>C. (C :: Config_t)\<lparr>Host := h, Cookie := c\<rparr> =
      \<lparr>Host = h, Cookie = c, apiReport = apiReport C, apiDump = apiDump C\<rparr>"
    by simp
  from assms show ?thesis
    by (cases "flag_api cmd = ''true''"; cases "flag_api_dump cmd = ''true''")
       (simp_all add: mustLoadConfig_def Let_def eq)
qed

lemma mustLoadConfig_not_loaded:
  assumes "home = (if HOME w = [] then USERPROFILE w else HOME w)"
    and "home = [] \<or> files w (Join d home perUserDotFile) = None \<or>
      (\<exists>raw. files w (Join d home perUserDotFile) = Some raw \<and>
         Decode (jsonConfig d) raw (Host (Config w), Cookie (Config w)) = None)"
  shows "\<exists>evs. mustLoadConfig d cmd w = (Abort Exited, w\<lparr>trace := trace w @ evs\<rparr>) \<and>
           list_all is_note evs"
proof -
  let ?home = "if HOME w = [] then USERPROFILE w else HOME w"
  let ?file = "Join d ?home perUserDotFile"
  consider "?home = []" | "?home \<noteq> []" "files w ?file = None"
    | raw where "?home \<noteq> []" "files w ?file = Some raw"
        "Decode (jsonConfig d) raw (Host (Config w), Cookie (Config w)) = None"
    using assms by (cases "files w ?file") auto
  then show ?thesis
  proof cases
    case 1
    then show ?thesis
      by (intro exI [of _ "[Log ''Unable to locate home directory, giving up'']"])
         (simp add: mustLoadConfig_def Let_def logFatalf_def emit_def)
  next
    case 2
    then show ?thesis
      by (intro exI [of _ "[Log (''Unable to load config file; try running '' @ [CHR 0x22] @
            ''grind init'' @ [CHR 0x22])]"])
         (simp add: mustLoadConfig_def Let_def logFatalf_def emit_def)
  next
    case 3
    then show ?thesis
      by (intro exI [of _ "[Log (''failed to parse '' @ ?file),
            Log (''you may wish to try deleting the file and running '' @ [CHR 0x22] @
              ''grind init'' @ [CHR 0x22] @ '' again'')]"])
         (simp add: mustLoadConfig_def Let_def logFatalf_def logPrintf_def emit_def)
  qed
qed

lemma mustLoadConfig_cases:
  obtains (stopped) evs where
      "mustLoadConfig d cmd w = (Abort Exited, w\<lparr>trace := trace w @ evs\<rparr>)" "list_all is_note evs"
  | (loaded) h c where
      "mustLoadConfig d cmd w =
         checkVersion d (w\<lparr>Config :=
           \<lparr>Host = h, Cookie = c,
            apiReport = (apiReport (Config w) \<or> flag_api cmd = ''true'' \<or> flag_api_dump cmd = ''true''),
            apiDump = (apiDump (Config w) \<or> flag_api_dump cmd = ''true'')\<rparr>\<rparr>)"
proof -
  let ?home = "if HOME w = [] then USERPROFILE w else HOME w"
  let ?file = "Join d ?home perUserDotFile"
  show thesis
  proof (cases "?home \<noteq> [] \<and> (\<exists>raw h c. files w ?file = Some raw \<and>
      Decode (jsonConfig d) raw (Host (Config w), Cookie (Config w)) = Some (h, c))")
    case True
    then obtain raw h c where "?home \<noteq> []" "files w ?file = Some raw"
      "Decode (jsonConfig d) raw (Host (Config w), Cookie (Config w)) = Some (h, c)"
      by blast
    from mustLoadConfig_loaded [OF refl this] loaded show thesis by blast
  next
    case False
    then have "?home = [] \<or> files w ?file = None \<or>
      (\<exists>raw. files w ?file = Some raw \<and>
         Decode (jsonConfig d) raw (Host (Config w), Cookie (Config w)) = None)"
      by (cases "files w ?file") (auto simp: not_Some_eq [symmetric] simp del: not_Some_eq not_None_eq)
    from mustLoadConfig_not_loaded [OF refl this] stopped show thesis by blast
  qed
qed

lemma mustLoadConfig_quiet:
  assumes run: "mustLoadConfig d cmd w = (r, w')"
  shows "\<exists>evs. frame w evs w' \<and> list_all (\<lambda>e. \<not> is_Write e) evs"
proof (cases d cmd w rule: mustLoadConfig_cases)
  case (stopped evs)
  with run have "w' = w\<lparr>trace := trace w @ evs\<rparr>" by simp
  then have "frame w evs w'" by (simp add: frame_def)
  with stopped(2) show ?thesis using notes_no_write by blast
next
  case (loaded h c)
  let ?w3 = "w\<lparr>Config :=
           \<lparr>Host = h, Cookie = c,
            apiReport = (apiReport (Config w) \<or> flag_api cmd = ''true'' \<or> flag_api_dump cmd = ''true''),
            apiDump = (apiDump (Config w) \<or> flag_api_dump cmd = ''true'')\<rparr>\<rparr>"
  from run loaded have "checkVersion d ?w3 = (r, w')" by simp
  from checkVersion_quiet [OF this] obtain evs where
    e: "frame ?w3 evs w'" "list_all (\<lambda>e. \<not> is_Write e) evs" by blast
  from frame_trans [OF frame_Config e(1)] e(2) show ?thesis by auto
qed

lemma mustLoadConfig_Ok:
  assumes run: "mustLoadConfig d cmd w = (Ok u, w')"
  shows "\<exists>e1 req resp e2.
           frame w (e1 @ Sent req (Inr resp) # e2) w' \<and> list_all is_note e1 \<and> list_all is_note e2 \<and>
           StatusCode resp = 200 \<and> Method req = ''GET'' \<and> URL req = api_url w' ''/version''"
proof (cases d cmd w rule: mustLoadConfig_cases)
  case (stopped evs)
  with run show ?thesis by simp
next
  case (loaded h c)
  let ?w3 = "w\<lparr>Config :=
           \<lparr>Host = h, Cookie = c,
            apiReport = (apiReport (Config w) \<or> flag_api cmd = ''true'' \<or> flag_api_dump cmd = ''true''),
            apiDump = (apiDump (Config w) \<or> flag_api_dump cmd = ''true'')\<rparr>\<rparr>"
  from run loaded have "checkVersion d ?w3 = (Ok u, w')" by simp
  from checkVersion_Ok [OF this] obtain e1 req resp e2 where
    g: "frame ?w3 (e1 @ Sent req (Inr resp) # e2) w'" "list_all is_note e1" "list_all is_note e2"
       "StatusCode resp = 200" "Method req = ''GET''" "URL req = api_url ?w3 ''/version''"
       "Config w' = Config ?w3"
    by blast
  from frame_trans [OF frame_Config g(1)]
  have "frame w (e1 @ Sent req (Inr resp) # e2) w'" by simp
  moreover from g(6,7) have "URL req = api_url w' ''/version''" by (simp add: api_url_def)
  ultimately show ?thesis using g by blast
qed

lemma mustWriteConfig_Ok:
  assumes "mustWriteConfig d w = (Ok u, w')"
  shows "\<exists>home raw0. home = (if HOME w = [] then USERPROFILE w else HOME w) \<and> home \<noteq> [] \<and>
           Marshal (jsonConfig d) (Host (Config w), Cookie (Config w)) = Some raw0 \<and>
           w' = w\<lparr>files := (files w)(Join d home perUserDotFile \<mapsto> raw0 @ [CHR 0x0A]),
                  trace := trace w @ [Write (Join d home perUserDotFile) (raw0 @ [CHR 0x0A])]\<rparr>"
  using assms
  by (auto simp: mustWriteConfig_def Let_def logFatalf_def emit_def
      split: if_splits option.splits write_outcome.splits)

lemma mustWriteConfig_run:
  assumes "mustWriteConfig d w = (r, w')"
  shows "(r = Abort Exited \<and> (\<exists>s. w' = emit (Log s) w)) \<or>
         (\<exists>p raw post. trace w' = trace w @ Write p raw # post \<and> list_all is_note post \<and>
            Config w' = Config w)"
  using assms
  by (auto simp: mustWriteConfig_def Let_def logFatalf_def emit_def
      split: if_splits option.splits write_outcome.splits)

subsection \<open>The steps of CommandInit\<close>

lemma CommandInit_cases [case_names load_abort bad_token gate_abort verify_abort write_abort finished]:
  obtains
    k w1 where "mustLoadConfig d cmd w = (Abort k, w1)" "CommandInit d cmd w = (Abort k, w1)"
  | u w1 s where "mustLoadConfig d cmd w = (Ok u, w1)" "\<not> token_ok d w1"
      "CommandInit d cmd w = (Abort Exited, emit (Log s) (prompted d w1))"
  | u w1 k w4 where "mustLoadConfig d cmd w = (Ok u, w1)" "token_ok d w1"
      "checkVersion d (configured d w1) = (Abort k, w4)" "CommandInit d cmd w = (Abort k, w4)"
  | u w1 u' w4 k w5 where "mustLoadConfig d cmd w = (Ok u, w1)" "token_ok d w1"
      "checkVersion d (configured d w1) = (Ok u', w4)"
      "mustGetObject d ''/users/me'' None (Some (jsonUser d, new_User)) w4 = (Abort k, w5)"
      "CommandInit d cmd w = (Abort k, w5)"
  | u w1 u' w4 obj w5 k w6 where "mustLoadConfig d cmd w = (Ok u, w1)" "token_ok d w1"
      "checkVersion d (configured d w1) = (Ok u', w4)"
      "mustGetObject d ''/users/me'' None (Some (jsonUser d, new_User)) w4 = (Ok obj, w5)"
      "mustWriteConfig d w5 = (Abort k, w6)" "CommandInit d cmd w = (Abort k, w6)"
  | u w1 u' w4 obj w5 u'' w6 s where "mustLoadConfig d cmd w = (Ok u, w1)" "token_ok d w1"
      "checkVersion d (configured d w1) = (Ok u', w4)"
      "mustGetObject d ''/users/me'' None (Some (jsonUser d, new_User)) w4 = (Ok obj, w5)"
      "mustWriteConfig d w5 = (Ok u'', w6)" "CommandInit d cmd w = (Ok (), emit (Log s) w6)"
proof -
  obtain r1 w1 where l: "mustLoadConfig d cmd w = (r1, w1)"
    by (cases "mustLoadConfig d cmd w")
  show thesis
  proof (cases r1)
    case (Abort k)
    with l that(1) show thesis by (simp add: CommandInit_def)
  next
    case (Ok u)
    note l = l [unfolded Ok]
    have sc: "Scanln (emit e w1) = Scanln w1" for e by (simp add: emit_def)
    show thesis
    proof (cases "token_ok d w1")
      case False
      then have "\<exists>s. CommandInit d cmd w = (Abort Exited, emit (Log s) (prompted d w1))"
        unfolding CommandInit_def l
        by (auto simp: Let_def token_ok_def prompted_def loadedHost_def logFatalf_def sc)
      with l False that(2) show thesis by blast
    next
      case tok: True
      then have rest: "CommandInit d cmd w =
        (case checkVersion d (configured d w1) of
            (Abort k, w4) \<Rightarrow> (Abort k, w4)
          | (Ok u, w4) \<Rightarrow>
              (case mustGetObject d ''/users/me'' None (Some (jsonUser d, new_User)) w4 of
                 (Abort k, w5) \<Rightarrow> (Abort k, w5)
               | (Ok obj, w5) \<Rightarrow>
                   let user = (case obj of Some v \<Rightarrow> v | None \<Rightarrow> new_User) in
                   (case mustWriteConfig d w5 of
                      (Abort k, w6) \<Rightarrow> (Abort k, w6)
                    | (Ok u, w6) \<Rightarrow>
                        (Ok (), logPrintf (''cookie verified and saved: welcome '' @ Name user) w6))))"
        unfolding CommandInit_def l
        by (simp add: Let_def token_ok_def prompted_def loadedHost_def configured_def sc emit_def)
      obtain r4 w4 where g: "checkVersion d (configured d w1) = (r4, w4)"
        by (cases "checkVersion d (configured d w1)")
      show thesis
      proof (cases r4)
        case (Abort k)
        with rest g l tok that(3) show thesis by simp
      next
        case (Ok u')
        note g = g [unfolded Ok]
        obtain r5 w5 where v:
          "mustGetObject d ''/users/me'' None (Some (jsonUser d, new_User)) w4 = (r5, w5)"
          by (cases "mustGetObject d ''/users/me'' None (Some (jsonUser d, new_User)) w4")
        show thesis
        proof (cases r5)
          case (Abort k)
          with rest g v l tok that(4) show thesis by simp
        next
          case (Ok obj)
          note v = v [unfolded Ok]
          obtain r6 w6 where s: "mustWriteConfig d w5 = (r6, w6)"
            by (cases "mustWriteConfig d w5")
          show thesis
          proof (cases r6)
            case (Abort k)
            with rest g v s l tok that(5) show thesis by (simp add: Let_def)
          next
            case (Ok u'')
            with rest g v s have
              "CommandInit d cmd w = (Ok (), emit (Log (''cookie verified and saved: welcome '' @
                 Name (case obj of Some v \<Rightarrow> v | None \<Rightarrow> new_User))) w6)"
              by (simp add: Let_def logPrintf_def)
            with g v s Ok l tok that(6) show thesis by blast
          qed
        qed
      qed
    qed
  qed
qed

subsection \<open>Evaluating the model\<close>

lemmas model_defs =
  doRequest_def newRequest_def report_def uploadPayload_def Do_def parseResult_def
  mustGetObject_def getObject_def mustPostObject_def mustPutObject_def drop_bool_def
  checkVersion_def mustLoadConfig_def mustWriteConfig_def CommandInit_def
  logPrintf_def logFatalf_def logPanicf_def emit_def nsent_def HasPrefix_def
  Config_zero_def new_Version_def new_User_def defaultHost_def perUserDotFile_def

lemmas ex_defs =
  ex_lib_def ex_world_def ex_server_def always_def ex_version_body_def ex_user_body_def
  ex_config_file_def undumpable_User_def
  no_flags_def flat_Config_def flat_Version_def flat_User_def flat_Marshal_def flat_Decode_def
  field_def squeeze_def quoted_def plain_text_def plain_MustParse_def numeral_of_def digit_def

section \<open>The claims\<close>

subsection \<open>C1: how doRequest reads the status\<close>

text \<open>
  C1, as the code has it. Take a call of \<open>doRequest\<close> that gets as far as the
  server (the path and the method pass, \<open>http.NewRequest\<close> succeeds, the upload can
  be encoded) and let the server answer with the response \<open>resp\<close>. The call returns
  \<open>false\<close> without aborting exactly when the status is 404 and \<open>notfoundokay\<close> is
  set (the download target is then left as it was), or the status is 200 and there
  is no download target. Every status other than
  200 ends the process, whatever the flag, but for the tolerated 404. Only 200 is
  success: without a download target the call returns \<open>false\<close>; with one it returns
  \<open>true\<close> and the decoded object, and ends the process when the body does not decode
  (or when \<open>apiDump\<close> is set and the object cannot be encoded again).
\<close>

theorem doRequest_status:
  assumes path: "HasPrefix path ''/''"
    and verb: "method \<in> set [''GET'', ''POST'', ''PUT'', ''DELETE'']"
    and built: "\<not> NewRequest_err d method (''https://'' @ Host (Config w) @ ''/v2'' @ path)"
    and encodes: "\<forall>cu u. upload = Some (cu, u) \<longrightarrow> Marshal cu u \<noteq> None"
    and answer: "\<forall>req. server w (nsent (trace w)) req = Inr resp"
    and run: "doRequest d path params method upload download notfoundokay w = (r, w')"
  shows "((\<exists>obj. r = Ok (False, obj)) \<longleftrightarrow>
            (notfoundokay \<and> StatusCode resp = 404) \<or> (StatusCode resp = 200 \<and> download = None)) \<and>
         (notfoundokay \<and> StatusCode resp = 404 \<longrightarrow> r = Ok (False, map_option snd download)) \<and>
         (StatusCode resp \<noteq> 200 \<and> \<not> (notfoundokay \<and> StatusCode resp = 404) \<longrightarrow> r = Abort Exited) \<and>
         (StatusCode resp = 200 \<longrightarrow>
            (case download of
               None \<Rightarrow> r = Ok (False, None)
             | Some (cd, target) \<Rightarrow>
                 (case Decode cd (RespBody resp) target of
                    None \<Rightarrow> r = Abort Exited
                  | Some obj \<Rightarrow>
                      r = (if apiDump (Config w) \<and> Marshal cd obj = None then Abort Exited
                           else Ok (True, Some obj)))))"
proof -
  have vm: "valid_method method" using verb by (simp add: valid_method_def)
  from built have nb: "\<not> NewRequest_err d method (api_url w path)" by (simp add: api_url_def)
  from prepare_Ok [OF encodes] obtain req w2 where
    p: "prepare d path params method upload w = (Ok req, w2)" by blast
  from prepare_run [OF p] obtain e1 where
    e1: "frame w e1 w2" "list_all is_note e1" "Config w2 = Config w" by blast
  have a: "answer_to w2 req = Inr resp"
    using answer_to_frame [OF e1(1,2)] answer by (simp add: answer_to_def)
  let ?w3 = "emit (Sent req (Inr resp)) w2"
  have dump: "apiDump (Config ?w3) = apiDump (Config w)" using e1(3) by simp
  from run path vm nb p a
  have res: "(r, w') = respond (api_url w path) download notfoundokay (Inr resp) ?w3"
    by (simp add: doRequest_unfold)
  show ?thesis
  proof (cases "notfoundokay \<and> StatusCode resp = 404")
    case True
    with res show ?thesis by (simp add: respond_def)
  next
    case nf: False
    show ?thesis
    proof (cases "StatusCode resp = 200")
      case False
      with res nf show ?thesis by (auto simp: respond_def logFatalf_def)
    next
      case True
      with res nf have pr: "(r, w') = parseResult download resp ?w3"
        by (auto simp: respond_def)
      show ?thesis
      proof (cases download)
        case None
        with pr True show ?thesis by (simp add: parseResult_def)
      next
        case (Some dl)
        obtain cd target where dl: "dl = (cd, target)" by (cases dl)
        show ?thesis
        proof (cases "Decode cd (RespBody resp) target")
          case None
          with pr True Some dl show ?thesis by (simp add: parseResult_def logFatalf_def)
        next
          case (Some obj)
          with pr True \<open>download = Some dl\<close> dl dump show ?thesis
            by (cases "Marshal cd obj") (auto simp: parseResult_def logFatalf_def)
        qed
      qed
    qed
  qed
qed

text \<open>The claim as stated fails twice: the status 201 is in the 2xx range and ends
  the process; and the status 200 with no download target returns \<open>false\<close> without
  aborting, though the status is not 404.\<close>

theorem doRequest_status_counterexample:
  "fst (doRequest (ex_lib ''2.1.0'') ''/problems/42'' None ''POST''
          (Some (flat_User, \<lparr>Name = ''Ada''\<rparr>)) (None :: unit iface) False
          (ex_world (\<lambda>p. None) [] (always 201 []))) = Abort Exited \<and>
   fst (doRequest (ex_lib ''2.1.0'') ''/problems/42'' None ''GET''
          (None :: unit iface) (None :: unit iface) True
          (ex_world (\<lambda>p. None) [] (always 200 []))) = Ok (False, None)"
  by (simp add: model_defs ex_defs Let_def)

theorem doRequest_status_witness:
  "fst (doRequest (ex_lib ''2.1.0'') ''/problems/42'' None ''GET''
          (None :: unit iface) (Some (flat_User, new_User)) True
          (ex_world (\<lambda>p. None) [] (always 404 []))) = Ok (False, Some new_User) \<and>
   fst (doRequest (ex_lib ''2.1.0'') ''/problems/42'' None ''GET''
          (None :: unit iface) (Some (flat_User, new_User)) False
          (ex_world (\<lambda>p. None) [] (always 404 []))) = Abort Exited"
proof -
  let ?d = "ex_lib ''2.1.0''"
  let ?w = "ex_world (\<lambda>p. None) [] (always 404 [])"
  let ?resp = "\<lparr>StatusCode = 404, Status = [], RespBody = []\<rparr>"
  let ?run = "\<lambda>nf. doRequest ?d ''/problems/42'' None ''GET''
          (None :: unit iface) (Some (flat_User, new_User)) nf ?w"
  have path: "HasPrefix ''/problems/42'' ''/''" by (simp add: HasPrefix_def)
  have verb: "''GET'' \<in> set [''GET'', ''POST'', ''PUT'', ''DELETE'']" by simp
  have built: "\<not> NewRequest_err ?d ''GET'' (''https://'' @ Host (Config ?w) @ ''/v2'' @ ''/problems/42'')"
    by (simp add: ex_lib_def)
  have encodes: "\<forall>cu u. (None :: unit iface) = Some (cu, u) \<longrightarrow> Marshal cu u \<noteq> None" by simp
  have answer: "\<forall>req. server ?w (nsent (trace ?w)) req = Inr ?resp"
    by (simp add: ex_world_def always_def)
  have run: "?run nf = (fst (?run nf), snd (?run nf))" for nf by simp
  from doRequest_status [OF path verb built encodes answer run [of True]]
    doRequest_status [OF path verb built encodes answer run [of False]]
  show ?thesis by auto
qed

subsection \<open>C2: the version gate\<close>

text \<open>
  C2. Let the fetch of \<open>/version\<close> have returned the descriptor \<open>srv\<close>, leaving the
  world \<open>w1\<close>, and let the client's version and the two versions of the descriptor
  parse. If the required version is greater than the client's, \<open>checkVersion\<close> ends
  the process after two lines of the logger. Otherwise, if the recommended version
  is greater than the client's, it writes the two lines of the warning and returns.
  Otherwise it returns in the world \<open>w1\<close> itself: it writes nothing and changes
  nothing beyond what the fetch did.
\<close>

theorem checkVersion_gate:
  assumes fetch: "mustGetObject d ''/version'' None (Some (jsonVersion d, new_Version)) w =
                    (Ok (Some srv), w1)"
    and cur: "MustParse d (Version (CurrentVersion d)) = Some current"
    and req: "MustParse d (GrindVersionRequired srv) = Some required"
    and rec: "MustParse d (GrindVersionRecommended srv) = Some recommended"
  shows "(GT d required current \<longrightarrow>
            checkVersion d w =
              (Abort Exited,
               logPrintf ''  you must upgrade to continue''
                 (logPrintf (''this is grind version '' @ Version (CurrentVersion d) @
                    '', but the server requires '' @ GrindVersionRequired srv @ '' or higher'') w1))) \<and>
         (\<not> GT d required current \<and> GT d recommended current \<longrightarrow>
            checkVersion d w =
              (Ok (),
               logPrintf ''  please upgrade as soon as possible''
                 (logPrintf (''this is grind version '' @ Version (CurrentVersion d) @
                    '', but the server recommends '' @ GrindVersionRecommended srv @
                    '' or higher'') w1))) \<and>
         (\<not> GT d required current \<and> \<not> GT d recommended current \<longrightarrow>
            checkVersion d w = (Ok (), w1))"
  unfolding checkVersion_def fetch
  by (simp add: cur req rec logFatalf_def logPrintf_def)

theorem checkVersion_gate_witness:
  "fst (checkVersion (ex_lib ''1.9.0'')
          (ex_world (\<lambda>p. None) [] (always 200 (ex_version_body ''2.0.0'' ''2.2.0'')))) = Abort Exited \<and>
   fst (checkVersion (ex_lib ''2.1.0'')
          (ex_world (\<lambda>p. None) [] (always 200 (ex_version_body ''2.0.0'' ''2.2.0'')))) = Ok () \<and>
   checkVersion (ex_lib ''2.2.0'')
          (ex_world (\<lambda>p. None) [] (always 200 (ex_version_body ''2.0.0'' ''2.2.0''))) =
     (Ok (), snd (mustGetObject (ex_lib ''2.2.0'') ''/version'' None
        (Some (jsonVersion (ex_lib ''2.2.0''), new_Version))
        (ex_world (\<lambda>p. None) [] (always 200 (ex_version_body ''2.0.0'' ''2.2.0'')))))"
proof -
  let ?w = "ex_world (\<lambda>p. None) [] (always 200 (ex_version_body ''2.0.0'' ''2.2.0''))"
  let ?srv = "\<lparr>Version = ''2.2.0'', GrindVersionRequired = ''2.0.0'',
               GrindVersionRecommended = ''2.2.0''\<rparr>"
  have fetch: "mustGetObject (ex_lib c) ''/version'' None
                 (Some (jsonVersion (ex_lib c), new_Version)) ?w =
               (Ok (Some ?srv), snd (mustGetObject (ex_lib c) ''/version'' None
                 (Some (jsonVersion (ex_lib c), new_Version)) ?w))" for c
    by (simp add: model_defs ex_defs Let_def)
  have cur: "MustParse (ex_lib ''1.9.0'') (Version (CurrentVersion (ex_lib ''1.9.0''))) = Some (1, 9, 0)"
    "MustParse (ex_lib ''2.1.0'') (Version (CurrentVersion (ex_lib ''2.1.0''))) = Some (2, 1, 0)"
    "MustParse (ex_lib ''2.2.0'') (Version (CurrentVersion (ex_lib ''2.2.0''))) = Some (2, 2, 0)"
    by (simp_all add: ex_defs)
  have req: "MustParse (ex_lib c) (GrindVersionRequired ?srv) = Some (2, 0, 0)" for c
    by (simp add: ex_defs)
  have rec: "MustParse (ex_lib c) (GrindVersionRecommended ?srv) = Some (2, 2, 0)" for c
    by (simp add: ex_defs)
  from checkVersion_gate [OF fetch cur(1) req rec]
    checkVersion_gate [OF fetch cur(2) req rec]
    checkVersion_gate [OF fetch cur(3) req rec]
  show ?thesis by (simp add: ex_lib_def)
qed

subsection \<open>C3: init without a config file\<close>

text \<open>
  C3 fails on the code. \<open>CommandInit\<close> begins with \<open>mustLoadConfig(cmd)\<close>, so for a
  user whose home directory holds no \<open>.codegrinderrc\<close> the command ends at once
  with the advice to run the very command that was run: nothing is asked, nothing is
  sent, nothing is saved.
\<close>

theorem CommandInit_without_config:
  "CommandInit (ex_lib ''2.1.0'') no_flags
     (ex_world (\<lambda>p. None) ''codegrinder=abc'' (ex_server ''2.0.0'' ''2.0.0'')) =
   (Abort Exited,
    emit (Log (''Unable to load config file; try running '' @ [CHR 0x22] @ ''grind init'' @ [CHR 0x22]))
      (ex_world (\<lambda>p. None) ''codegrinder=abc'' (ex_server ''2.0.0'' ''2.0.0'')))"
  by (simp add: CommandInit_def mustLoadConfig_def logFatalf_def ex_world_def ex_lib_def
      perUserDotFile_def Let_def)

subsection \<open>C4: the config is written last\<close>

lemma frame_configured: "frame w [Print (init_prompt (loadedHost w) (CookieName d))] (configured d w)"
  by (simp add: frame_def configured_def prompted_def emit_def)

lemma frame_prompted: "frame w [Print (init_prompt (loadedHost w) (CookieName d))] (prompted d w)"
  by (simp add: prompted_def frame_emit)

lemma list_ex_Write: "list_ex is_Write evs \<longleftrightarrow> \<not> list_all (\<lambda>e. \<not> is_Write e) evs"
  by (simp add: list_ex_iff list_all_iff)

lemma up_to_the_gate:
  assumes l: "mustLoadConfig d cmd w = (Ok u, w1)"
    and g: "checkVersion d (configured d w1) = (r4, w4)"
  shows "\<exists>evs. frame w evs w4 \<and> list_all (\<lambda>e. \<not> is_Write e) evs \<and>
           Cookie (Config w4) = scan_token (Scanln w)"
proof -
  from mustLoadConfig_quiet [OF l] obtain e1 where
    e1: "frame w e1 w1" "list_all (\<lambda>e. \<not> is_Write e) e1" by blast
  from checkVersion_quiet [OF g] obtain e4 where
    e4: "frame (configured d w1) e4 w4" "Config w4 = Config (configured d w1)"
      "list_all (\<lambda>e. \<not> is_Write e) e4" by blast
  have "frame w (e1 @ [Print (init_prompt (loadedHost w1) (CookieName d))] @ e4) w4"
    by (rule frame_trans [OF e1(1) frame_trans [OF frame_configured e4(1)]])
  moreover have "Cookie (Config w4) = scan_token (Scanln w)"
    using e4(2) frame_fields(6) [OF e1(1)] by (simp add: configured_def)
  ultimately show ?thesis using e1(2) e4(3)
    by (intro exI [of _ "e1 @ [Print (init_prompt (loadedHost w1) (CookieName d))] @ e4"]) simp
qed

text \<open>
  C4. Whatever \<open>CommandInit\<close> does, the events it adds to the trace are of one of two
  kinds. Either a call of \<open>WriteFile\<close> is among them: then there is exactly one, and
  before it stands the request \<open>GET /users/me\<close>, sent with the pasted token as the
  cookie and answered with the status 200 and a body that decodes into a user; no
  write comes before that request, and between the request and the write and after
  the write the program only logs. Or no call of \<open>WriteFile\<close> is among them: then
  the files are what they were. So the config file is written only after the
  verification succeeded, and a run that fails at any earlier step (reading the
  cookie, the prefix, the version gate, the verification) leaves it as it was.
\<close>

theorem CommandInit_writes_last:
  "\<exists>new. trace (snd (CommandInit d cmd w)) = trace w @ new \<and>
     (if list_ex is_Write new then
        (\<exists>pre req resp mid p raw post.
           new = pre @ Sent req (Inr resp) # mid @ Write p raw # post \<and>
           list_all (\<lambda>e. \<not> is_Write e) pre \<and> list_all is_note mid \<and> list_all is_note post \<and>
           Method req = ''GET'' \<and>
           URL req = ''https://'' @ Host (Config (snd (CommandInit d cmd w))) @ ''/v2/users/me'' \<and>
           (''Cookie'', scan_token (Scanln w)) \<in> set (Header req) \<and>
           StatusCode resp = 200 \<and> Decode (jsonUser d) (RespBody resp) new_User \<noteq> None)
      else files (snd (CommandInit d cmd w)) = files w)"
  (is "\<exists>new. ?T new \<and> ?P new")
proof -
  define w0 where "w0 = snd (CommandInit d cmd w)"
  have quiet: "\<exists>new. ?T new \<and> ?P new"
    if "frame w evs w0" "list_all (\<lambda>e. \<not> is_Write e) evs" for evs
    using that frame_fields(1,2) [OF that(1)]
    by (intro exI [of _ evs]) (simp add: w0_def list_ex_Write)
  have verified: "\<exists>new. ?T new \<and> ?P new"
    if l: "mustLoadConfig d cmd w = (Ok u, w1)"
      and g: "checkVersion d (configured d w1) = (r4, w4)"
      and v: "mustGetObject d ''/users/me'' None (Some (jsonUser d, new_User)) w4 = (Ok obj, w5)"
      and s: "mustWriteConfig d w5 = (r6, w6)"
      and fin: "w0 = w6 \<or> (r6 \<noteq> Abort Exited \<and> (\<exists>s. w0 = emit (Log s) w6))"
    for u w1 r4 w4 obj w5 r6 w6
  proof -
    from up_to_the_gate [OF l g] obtain e where
      e: "frame w e w4" "list_all (\<lambda>e. \<not> is_Write e) e"
         "Cookie (Config w4) = scan_token (Scanln w)" by blast
    from mustGetObject_Ok [OF v] obtain a1 req resp a2 usr where
      a: "frame w4 (a1 @ Sent req (Inr resp) # a2) w5" "list_all is_note a1" "list_all is_note a2"
         "Method req = ''GET''" "URL req = api_url w4 ''/users/me''"
         "(''Cookie'', Cookie (Config w4)) \<in> set (Header req)"
         "StatusCode resp = 200" "Decode (jsonUser d) (RespBody resp) new_User = Some usr"
      by blast
    from mustGetObject_quiet [OF v] have c5: "Config w5 = Config w4"
      by blast
    have f5: "frame w (e @ a1 @ Sent req (Inr resp) # a2) w5"
      using frame_trans [OF e(1) a(1)] by simp
    note t5 = frame_fields(1,2) [OF f5]
    from mustWriteConfig_run [OF s]
    consider s' where "r6 = Abort Exited" "w6 = emit (Log s') w5"
      | p raw post where "trace w6 = trace w5 @ Write p raw # post" "list_all is_note post"
          "Config w6 = Config w5"
      by blast
    then show ?thesis
    proof cases
      case 1
      with fin have "w0 = emit (Log s') w5" by auto
      then have "frame w5 [Log s'] w0" by (simp add: frame_emit)
      from frame_trans [OF f5 this] e(2) a(2,3) show ?thesis
        by (intro quiet [of "(e @ a1 @ Sent req (Inr resp) # a2) @ [Log s']"])
           (auto simp: list_all_iff is_note_def)
    next
      case 2
      from fin obtain post' where
        t0: "trace w0 = trace w6 @ post'" "list_all is_note post'" "Config w0 = Config w6"
      proof
        assume "w0 = w6"
        then show thesis by (intro that [of "[]"]) simp_all
      next
        assume "r6 \<noteq> Abort Exited \<and> (\<exists>s. w0 = emit (Log s) w6)"
        then obtain s where "w0 = emit (Log s) w6" by blast
        then show thesis by (intro that [of "[Log s]"]) (simp_all add: emit_def)
      qed
      let ?new = "(e @ a1) @ Sent req (Inr resp) # a2 @ Write p raw # (post @ post')"
      have tr: "trace w0 = trace w @ ?new"
        by (simp add: t0(1) 2(1) t5(1))
      have host: "Host (Config w0) = Host (Config w4)"
        by (simp add: t0(3) 2(3) c5)
      have wr: "list_ex is_Write ?new" by simp
      have pre: "list_all (\<lambda>e. \<not> is_Write e) (e @ a1)"
        using e(2) a(2) by (auto simp: list_all_iff is_note_def)
      have post: "list_all is_note (post @ post')" using 2(2) t0(2) by simp
      have url: "URL req = ''https://'' @ Host (Config w0) @ ''/v2/users/me''"
        using a(5) host by (simp add: api_url_def)
      have ck: "(''Cookie'', scan_token (Scanln w)) \<in> set (Header req)"
        using a(6) e(3) by simp
      have dec: "Decode (jsonUser d) (RespBody resp) new_User \<noteq> None" using a(8) by simp
      have "?P ?new"
        unfolding if_P [OF wr] w0_def [symmetric]
        using pre a(3) post a(4) url ck a(7) dec by blast
      with tr show ?thesis unfolding w0_def by blast
    qed
  qed
  show ?thesis
  proof (cases d cmd w rule: CommandInit_cases)
    case (load_abort k w1)
    then have "w0 = w1" by (simp add: w0_def)
    with mustLoadConfig_quiet [OF load_abort(1)] quiet show ?thesis by blast
  next
    case (bad_token u w1 s)
    from mustLoadConfig_quiet [OF bad_token(1)] obtain e1 where
      e1: "frame w e1 w1" "list_all (\<lambda>e. \<not> is_Write e) e1" by blast
    from bad_token(3) have "w0 = emit (Log s) (prompted d w1)" by (simp add: w0_def)
    then have "frame w1 ([Print (init_prompt (loadedHost w1) (CookieName d))] @ [Log s]) w0"
      using frame_trans [OF frame_prompted frame_emit] by simp
    from frame_trans [OF e1(1) this] e1(2) show ?thesis
      by (intro quiet [of "e1 @ [Print (init_prompt (loadedHost w1) (CookieName d))] @ [Log s]"])
         simp_all
  next
    case (gate_abort u w1 k w4)
    then have "w0 = w4" by (simp add: w0_def)
    with up_to_the_gate [OF gate_abort(1,3)] quiet show ?thesis by blast
  next
    case (verify_abort u w1 u' w4 k w5)
    from up_to_the_gate [OF verify_abort(1,3)] obtain e where
      e: "frame w e w4" "list_all (\<lambda>e. \<not> is_Write e) e" by blast
    from mustGetObject_quiet [OF verify_abort(4)] obtain e5 where
      e5: "frame w4 e5 w5" "list_all (\<lambda>e. \<not> is_Write e) e5" by blast
    from verify_abort(5) have "w0 = w5" by (simp add: w0_def)
    with frame_trans [OF e(1) e5(1)] e(2) e5(2) show ?thesis
      by (intro quiet [of "e @ e5"]) simp_all
  next
    case (write_abort u w1 u' w4 obj w5 k w6)
    from write_abort(6) have "w0 = w6" by (simp add: w0_def)
    with verified [OF write_abort(1,3,4,5)] show ?thesis by blast
  next
    case (finished u w1 u' w4 obj w5 u'' w6 s)
    from finished(6) have "w0 = emit (Log s) w6" by (simp add: w0_def)
    with verified [OF finished(1,3,4,5)] show ?thesis by blast
  qed
qed

text \<open>A run that gets to the end: a user with a config for \<open>example.org\<close> pastes a
  new cookie. The gate is passed twice (once inside \<open>mustLoadConfig\<close>), the cookie
  is verified, and the file then holds the new cookie.\<close>

lemma CommandInit_run_example:
  "fst (CommandInit (ex_lib ''2.1.0'') no_flags
          (ex_world (ex_config_file ''example.org'' ''codegrinder=old'') ''codegrinder=new''
             (ex_server ''2.0.0'' ''2.0.0''))) = Ok () \<and>
   map (\<lambda>e. case e of Sent req a \<Rightarrow> Method req @ '' '' @ URL req | Write p raw \<Rightarrow> ''WRITE '' @ p
             | _ \<Rightarrow> [])
     (filter (\<lambda>e. is_Sent e \<or> is_Write e)
        (trace (snd (CommandInit (ex_lib ''2.1.0'') no_flags
          (ex_world (ex_config_file ''example.org'' ''codegrinder=old'') ''codegrinder=new''
             (ex_server ''2.0.0'' ''2.0.0'')))))) =
     [''GET https://example.org/v2/version'', ''GET https://example.org/v2/version'',
      ''GET https://example.org/v2/users/me'', ''WRITE /home/ada/.codegrinderrc''] \<and>
   files (snd (CommandInit (ex_lib ''2.1.0'') no_flags
          (ex_world (ex_config_file ''example.org'' ''codegrinder=old'') ''codegrinder=new''
             (ex_server ''2.0.0'' ''2.0.0'')))) ''/home/ada/.codegrinderrc'' =
     ex_config_file ''example.org'' ''codegrinder=new'' ''/home/ada/.codegrinderrc''"
  by (simp add: model_defs ex_defs Let_def)

subsection \<open>C5: saving and loading the config\<close>

text \<open>
  C5. Let \<open>mustWriteConfig\<close> save the config of the world \<open>w\<close>, and let the config
  be well formed: the text JSON makes of its host and cookie, with the newline the
  program appends, decodes to the same host and cookie. Then in any later world with
  the same home directory and files, whatever its \<open>Config\<close> holds, \<open>mustLoadConfig\<close>
  gets past reading and parsing and runs the version gate on the saved host and
  cookie; in the world it leaves, host and cookie are the saved ones, and the two
  flags are what they were before the load, or-ed with the flags of the command
  line. In a fresh process, where they start false, they are the command line's:
  \<open>apiReport\<close> is \<open>--api\<close> or \<open>--api-dump\<close>, \<open>apiDump\<close> is \<open>--api-dump\<close>. The flags
  of the saved config play no part.
\<close>

theorem config_round_trip:
  assumes saved: "mustWriteConfig d w = (Ok u, w1)"
    and well_formed:
      "\<And>raw old. Marshal (jsonConfig d) (Host (Config w), Cookie (Config w)) = Some raw \<Longrightarrow>
         Decode (jsonConfig d) (raw @ [CHR 0x0A]) old = Some (Host (Config w), Cookie (Config w))"
    and later: "HOME w2 = HOME w1" "USERPROFILE w2 = USERPROFILE w1" "files w2 = files w1"
  shows "mustLoadConfig d cmd w2 =
           checkVersion d (w2\<lparr>Config :=
             \<lparr>Host = Host (Config w), Cookie = Cookie (Config w),
              apiReport = (apiReport (Config w2) \<or> flag_api cmd = ''true'' \<or> flag_api_dump cmd = ''true''),
              apiDump = (apiDump (Config w2) \<or> flag_api_dump cmd = ''true'')\<rparr>\<rparr>) \<and>
         Config (snd (mustLoadConfig d cmd w2)) =
           \<lparr>Host = Host (Config w), Cookie = Cookie (Config w),
            apiReport = (apiReport (Config w2) \<or> flag_api cmd = ''true'' \<or> flag_api_dump cmd = ''true''),
            apiDump = (apiDump (Config w2) \<or> flag_api_dump cmd = ''true'')\<rparr>"
proof -
  from mustWriteConfig_Ok [OF saved] obtain home raw0 where
    home: "home = (if HOME w = [] then USERPROFILE w else HOME w)" "home \<noteq> []"
    and enc: "Marshal (jsonConfig d) (Host (Config w), Cookie (Config w)) = Some raw0"
    and w1: "w1 = w\<lparr>files := (files w)(Join d home perUserDotFile \<mapsto> raw0 @ [CHR 0x0A]),
                  trace := trace w @ [Write (Join d home perUserDotFile) (raw0 @ [CHR 0x0A])]\<rparr>"
    by blast
  from w1 later have env: "HOME w2 = HOME w" "USERPROFILE w2 = USERPROFILE w"
    and stored: "files w2 (Join d home perUserDotFile) = Some (raw0 @ [CHR 0x0A])"
    by simp_all
  from home env have home2: "home = (if HOME w2 = [] then USERPROFILE w2 else HOME w2)"
    by simp
  have dec: "Decode (jsonConfig d) (raw0 @ [CHR 0x0A]) (Host (Config w2), Cookie (Config w2)) =
      Some (Host (Config w), Cookie (Config w))"
    by (rule well_formed [OF enc])
  have load: "mustLoadConfig d cmd w2 =
           checkVersion d (w2\<lparr>Config :=
             \<lparr>Host = Host (Config w), Cookie = Cookie (Config w),
              apiReport = (apiReport (Config w2) \<or> flag_api cmd = ''true'' \<or> flag_api_dump cmd = ''true''),
              apiDump = (apiDump (Config w2) \<or> flag_api_dump cmd = ''true'')\<rparr>\<rparr>)"
    by (rule mustLoadConfig_loaded [OF home2 home(2) stored dec])
  show ?thesis
    unfolding load by (simp add: checkVersion_Config)
qed

text \<open>Saved by one process and loaded by the next, which was started with
  \<open>--api\<close>: the load returns, host and cookie are back, and of the flags only
  \<open>apiReport\<close> is set.\<close>

theorem config_round_trip_witness:
  "fst (mustLoadConfig (ex_lib ''2.1.0'') \<lparr>flag_api = ''true'', flag_api_dump = ''false''\<rparr>
     (ex_world
        (files (snd (mustWriteConfig (ex_lib ''2.1.0'')
           ((ex_world (\<lambda>p. None) [] (ex_server ''2.0.0'' ''2.0.0''))
              \<lparr>Config := \<lparr>Host = ''example.org'', Cookie = ''codegrinder=abc'',
                           apiReport = False, apiDump = True\<rparr>\<rparr>))))
        [] (ex_server ''2.0.0'' ''2.0.0''))) = Ok () \<and>
   Config (snd (mustLoadConfig (ex_lib ''2.1.0'') \<lparr>flag_api = ''true'', flag_api_dump = ''false''\<rparr>
     (ex_world
        (files (snd (mustWriteConfig (ex_lib ''2.1.0'')
           ((ex_world (\<lambda>p. None) [] (ex_server ''2.0.0'' ''2.0.0''))
              \<lparr>Config := \<lparr>Host = ''example.org'', Cookie = ''codegrinder=abc'',
                           apiReport = False, apiDump = True\<rparr>\<rparr>))))
        [] (ex_server ''2.0.0'' ''2.0.0'')))) =
     \<lparr>Host = ''example.org'', Cookie = ''codegrinder=abc'', apiReport = True, apiDump = False\<rparr>"
proof -
  let ?d = "ex_lib ''2.1.0''"
  let ?cmd = "\<lparr>flag_api = ''true'', flag_api_dump = ''false''\<rparr>"
  let ?w = "(ex_world (\<lambda>p. None) [] (ex_server ''2.0.0'' ''2.0.0''))
              \<lparr>Config := \<lparr>Host = ''example.org'', Cookie = ''codegrinder=abc'',
                           apiReport = False, apiDump = True\<rparr>\<rparr>"
  let ?w1 = "snd (mustWriteConfig ?d ?w)"
  let ?w2 = "ex_world (files ?w1) [] (ex_server ''2.0.0'' ''2.0.0'')"
  have saved: "mustWriteConfig ?d ?w = (Ok (), ?w1)"
    by (simp add: model_defs ex_defs Let_def)
  have well_formed:
    "\<And>raw old. Marshal (jsonConfig ?d) (Host (Config ?w), Cookie (Config ?w)) = Some raw \<Longrightarrow>
     Decode (jsonConfig ?d) (raw @ [CHR 0x0A]) old = Some (Host (Config ?w), Cookie (Config ?w))"
    subgoal for raw old by (cases old) (auto simp: ex_defs ex_world_def)
    done
  have later: "HOME ?w2 = HOME ?w1" "USERPROFILE ?w2 = USERPROFILE ?w1" "files ?w2 = files ?w1"
    by (simp_all add: model_defs ex_defs Let_def)
  have returns: "fst (mustLoadConfig ?d ?cmd ?w2) = Ok ()"
    by (simp add: model_defs ex_defs Let_def)
  have host: "Host (Config ?w) = ''example.org''" and cookie: "Cookie (Config ?w) = ''codegrinder=abc''"
    by simp_all
  have fresh: "apiReport (Config ?w2) = False" "apiDump (Config ?w2) = False"
    by (simp_all add: ex_world_def Config_zero_def)
  have "Config (snd (mustLoadConfig ?d ?cmd ?w2)) =
      \<lparr>Host = ''example.org'', Cookie = ''codegrinder=abc'', apiReport = True, apiDump = False\<rparr>"
    using config_round_trip [OF saved well_formed later, where cmd = ?cmd, THEN conjunct2]
    unfolding host cookie fresh by simp
  with returns show ?thesis by (intro conjI)
qed

subsection \<open>C6: the two programmer errors of doRequest\<close>

text \<open>
  C6. A call of \<open>doRequest\<close> whose path begins with \<open>/\<close> and whose method is one of
  GET, POST, PUT, DELETE never ends in the panic of \<open>log.Panicf\<close>. A path that does
  not begin with \<open>/\<close>, or any other method, ends the process in that panic at once:
  the world afterwards is the world before with the one line of the logger, so no
  request was built or sent.
\<close>

theorem doRequest_programmer_errors:
  "(HasPrefix path ''/'' \<and> method \<in> set [''GET'', ''POST'', ''PUT'', ''DELETE''] \<longrightarrow>
      fst (doRequest d path params method upload download notfoundokay w) \<noteq> Abort Panicked) \<and>
   (\<not> HasPrefix path ''/'' \<longrightarrow>
      doRequest d path params method upload download notfoundokay w =
        (Abort Panicked, emit (Log ''doRequest path must start with /'') w)) \<and>
   (HasPrefix path ''/'' \<and> method \<notin> set [''GET'', ''POST'', ''PUT'', ''DELETE''] \<longrightarrow>
      doRequest d path params method upload download notfoundokay w =
        (Abort Panicked,
         emit (Log ''doRequest only recognizes GET, POST, PUT, and DELETE methods'') w))"
proof (intro conjI impI)
  assume ok: "HasPrefix path ''/'' \<and> method \<in> set [''GET'', ''POST'', ''PUT'', ''DELETE'']"
  then have vm: "valid_method method" by (simp add: valid_method_def)
  obtain r w' where run: "doRequest d path params method upload download notfoundokay w = (r, w')"
    by (cases "doRequest d path params method upload download notfoundokay w")
  have "r \<noteq> Abort Panicked"
  proof (cases "NewRequest_err d method (api_url w path)")
    case True
    with run ok vm show ?thesis by (auto simp: doRequest_unfold logFatalf_def)
  next
    case False
    obtain rp w2 where p: "prepare d path params method upload w = (rp, w2)"
      by (cases "prepare d path params method upload w")
    show ?thesis
    proof (cases rp)
      case (Abort k)
      with p have "k = Exited" by (simp add: prepare_abort)
      with run ok vm False p Abort show ?thesis by (auto simp: doRequest_unfold)
    next
      case (Ok req)
      with run ok vm False p
      have "respond (api_url w path) download notfoundokay (answer_to w2 req)
              (emit (Sent req (answer_to w2 req)) w2) = (r, w')"
        by (simp add: doRequest_unfold)
      then show ?thesis by (cases r) (auto dest: respond_abort)
    qed
  qed
  with run show "fst (doRequest d path params method upload download notfoundokay w) \<noteq> Abort Panicked"
    by simp
next
  assume "\<not> HasPrefix path ''/''"
  then show "doRequest d path params method upload download notfoundokay w =
        (Abort Panicked, emit (Log ''doRequest path must start with /'') w)"
    by (simp add: doRequest_unfold logPanicf_def)
next
  assume "HasPrefix path ''/'' \<and> method \<notin> set [''GET'', ''POST'', ''PUT'', ''DELETE'']"
  then show "doRequest d path params method upload download notfoundokay w =
        (Abort Panicked,
         emit (Log ''doRequest only recognizes GET, POST, PUT, and DELETE methods'') w)"
    by (simp add: doRequest_unfold logPanicf_def valid_method_def)
qed

theorem doRequest_programmer_errors_witness:
  "fst (doRequest (ex_lib ''2.1.0'') ''/version'' None ''GET'' (None :: unit iface)
          (None :: unit iface) False (ex_world (\<lambda>p. None) [] (always 200 []))) \<noteq> Abort Panicked \<and>
   doRequest (ex_lib ''2.1.0'') ''version'' None ''GET'' (None :: unit iface)
          (None :: unit iface) False (ex_world (\<lambda>p. None) [] (always 200 [])) =
     (Abort Panicked, emit (Log ''doRequest path must start with /'')
        (ex_world (\<lambda>p. None) [] (always 200 []))) \<and>
   doRequest (ex_lib ''2.1.0'') ''/version'' None ''PATCH'' (None :: unit iface)
          (None :: unit iface) False (ex_world (\<lambda>p. None) [] (always 200 [])) =
     (Abort Panicked, emit (Log ''doRequest only recognizes GET, POST, PUT, and DELETE methods'')
        (ex_world (\<lambda>p. None) [] (always 200 [])))"
  using doRequest_programmer_errors [of "''/version''" "''GET''" "ex_lib ''2.1.0''" None
      "None :: unit iface" "None :: unit iface" False "ex_world (\<lambda>p. None) [] (always 200 [])"]
    doRequest_programmer_errors [of "''version''" "''GET''" "ex_lib ''2.1.0''" None
      "None :: unit iface" "None :: unit iface" False "ex_world (\<lambda>p. None) [] (always 200 [])"]
    doRequest_programmer_errors [of "''/version''" "''PATCH''" "ex_lib ''2.1.0''" None
      "None :: unit iface" "None :: unit iface" False "ex_world (\<lambda>p. None) [] (always 200 [])"]
  by (simp add: HasPrefix_def)

subsection \<open>C7: the two flags and the control flow\<close>

lemma sbl_refl: "same_but_logs w w"
  by (simp add: same_but_logs_def)

lemma sbl_flags: "same_but_logs w (w\<lparr>Config := (Config w)\<lparr>apiReport := a, apiDump := b\<rparr>\<rparr>)"
  by (simp add: same_but_logs_def)

lemma sbl_emit: "same_but_logs w v \<Longrightarrow> same_but_logs (emit e w) (emit e v)"
  by (simp add: same_but_logs_def emit_def unlogged_def)

lemma sbl_log_left: "same_but_logs w v \<Longrightarrow> same_but_logs (emit (Log s) w) v"
  by (simp add: same_but_logs_def emit_def unlogged_def)

lemma sbl_log_right: "same_but_logs w v \<Longrightarrow> same_but_logs w (emit (Log s) v)"
  by (simp add: same_but_logs_def emit_def unlogged_def)

lemmas sbl = sbl_emit sbl_log_left sbl_log_right

lemma nsent_unlogged: "nsent (unlogged evs) = nsent evs"
proof -
  have "filter is_Sent (filter (\<lambda>e. \<not> is_Log e) evs) = filter is_Sent evs"
    by (induction evs) (auto elim: is_Sent.elims)
  then show ?thesis by (simp add: nsent_def unlogged_def)
qed

lemma sbl_answer: "same_but_logs w v \<Longrightarrow> answer_to v req = answer_to w req"
  using nsent_unlogged [of "trace w"] nsent_unlogged [of "trace v"]
  by (simp add: same_but_logs_def answer_to_def)

lemma sbl_api_url: "same_but_logs w v \<Longrightarrow> api_url v path = api_url w path"
  by (simp add: same_but_logs_def api_url_def)

lemma report_sbl:
  "same_but_logs w v \<Longrightarrow> same_but_logs (report method req w) (report method req v)"
  by (simp add: report_def logPrintf_def sbl)

lemma uploadPayload_sbl:
  assumes "same_but_logs w v"
  shows "fst (uploadPayload method upload req v) = fst (uploadPayload method upload req w) \<and>
         same_but_logs (snd (uploadPayload method upload req w)) (snd (uploadPayload method upload req v))"
  using assms
  by (cases upload)
     (auto simp: uploadPayload_def logFatalf_def logPrintf_def sbl split: option.splits)

lemma prepare_sbl:
  assumes "same_but_logs w v"
  shows "fst (prepare d path params method upload v) = fst (prepare d path params method upload w) \<and>
         same_but_logs (snd (prepare d path params method upload w))
           (snd (prepare d path params method upload v))"
proof -
  from assms have "Cookie (Config v) = Cookie (Config w)" by (simp add: same_but_logs_def)
  with assms show ?thesis
    unfolding prepare_def by (simp add: sbl_api_url uploadPayload_sbl report_sbl)
qed

lemma parseResult_sbl:
  assumes rel: "same_but_logs w v"
    and enc: "\<forall>cd target obj. download = Some (cd, target) \<longrightarrow>
                Decode cd (RespBody resp) target = Some obj \<longrightarrow> Marshal cd obj \<noteq> None"
  shows "fst (parseResult download resp v) = fst (parseResult download resp w) \<and>
         same_but_logs (snd (parseResult download resp w)) (snd (parseResult download resp v))"
proof (cases download)
  case None
  with rel show ?thesis by (simp add: parseResult_def)
next
  case (Some dl)
  obtain cd target where dl: "dl = (cd, target)" by (cases dl)
  show ?thesis
  proof (cases "Decode cd (RespBody resp) target")
    case None
    with rel Some dl show ?thesis by (simp add: parseResult_def logFatalf_def sbl)
  next
    case (Some obj)
    with enc \<open>download = Some dl\<close> dl obtain raw where "Marshal cd obj = Some raw" by auto
    with rel Some \<open>download = Some dl\<close> dl show ?thesis
      by (simp add: parseResult_def logPrintf_def sbl)
  qed
qed

lemma respond_sbl:
  assumes rel: "same_but_logs w v"
    and enc: "\<forall>cd target body obj. download = Some (cd, target) \<longrightarrow>
                Decode cd body target = Some obj \<longrightarrow> Marshal cd obj \<noteq> None"
  shows "fst (respond url download notfoundokay answer v) =
           fst (respond url download notfoundokay answer w) \<and>
         same_but_logs (snd (respond url download notfoundokay answer w))
           (snd (respond url download notfoundokay answer v))"
proof (cases answer)
  case (Inl err)
  from rel have "Host (Config v) = Host (Config w)" by (simp add: same_but_logs_def)
  with rel Inl show ?thesis by (simp add: respond_def logFatalf_def sbl)
next
  case (Inr resp)
  from enc have "\<forall>cd target obj. download = Some (cd, target) \<longrightarrow>
                Decode cd (RespBody resp) target = Some obj \<longrightarrow> Marshal cd obj \<noteq> None"
    by blast
  from parseResult_sbl [OF rel this] rel Inr show ?thesis
    by (simp add: respond_def logFatalf_def logPrintf_def sbl)
qed

lemma doRequest_sbl:
  assumes rel: "same_but_logs w v"
    and enc: "\<forall>cd target body obj. download = Some (cd, target) \<longrightarrow>
                Decode cd body target = Some obj \<longrightarrow> Marshal cd obj \<noteq> None"
  shows "fst (doRequest d path params method upload download notfoundokay v) =
           fst (doRequest d path params method upload download notfoundokay w) \<and>
         same_but_logs (snd (doRequest d path params method upload download notfoundokay w))
           (snd (doRequest d path params method upload download notfoundokay v))"
proof (cases "HasPrefix path ''/'' \<and> valid_method method \<and>
    \<not> NewRequest_err d method (api_url w path)")
  case False
  with rel show ?thesis
    by (auto simp: doRequest_unfold sbl_api_url logPanicf_def logFatalf_def sbl)
next
  case True
  note p = prepare_sbl [OF rel, of d path params "method" "upload"]
  obtain rw w2 where pw: "prepare d path params method upload w = (rw, w2)"
    by (cases "prepare d path params method upload w")
  obtain rv v2 where pv: "prepare d path params method upload v = (rv, v2)"
    by (cases "prepare d path params method upload v")
  from p pw pv have same: "rv = rw" and rel2: "same_but_logs w2 v2" by simp_all
  show ?thesis
  proof (cases rw)
    case (Abort k)
    with True rel pw pv same rel2 show ?thesis
      by (simp add: doRequest_unfold sbl_api_url)
  next
    case (Ok req)
    have a: "answer_to v2 req = answer_to w2 req" by (rule sbl_answer [OF rel2])
    have rel3: "same_but_logs (emit (Sent req (answer_to w2 req)) w2)
        (emit (Sent req (answer_to w2 req)) v2)"
      by (rule sbl_emit [OF rel2])
    from respond_sbl [OF rel3 enc] True rel pw pv same Ok a show ?thesis
      by (simp add: doRequest_unfold sbl_api_url)
  qed
qed

text \<open>
  C7, as the code has it. Run \<open>doRequest\<close> twice on the same request in the same
  world, the second time with any other values of \<open>apiReport\<close> and \<open>apiDump\<close>. If
  whatever decodes into the download target can be encoded again, both runs return
  the same value or end the process in the same way, and the worlds they leave
  differ at most in the two flags and in lines of the logger: the same request was
  sent, the same files are there. (Without that condition the flag decides: under
  \<open>apiDump\<close> the downloaded object is encoded for the log, and a failure to encode
  it ends the process.)
\<close>

theorem doRequest_flags_only_log:
  assumes "\<forall>cd target body obj. download = Some (cd, target) \<longrightarrow>
             Decode cd body target = Some obj \<longrightarrow> Marshal cd obj \<noteq> None"
  shows "fst (doRequest d path params method upload download notfoundokay
                (w\<lparr>Config := (Config w)\<lparr>apiReport := rep, apiDump := dump\<rparr>\<rparr>)) =
           fst (doRequest d path params method upload download notfoundokay w) \<and>
         same_but_logs (snd (doRequest d path params method upload download notfoundokay w))
           (snd (doRequest d path params method upload download notfoundokay
                (w\<lparr>Config := (Config w)\<lparr>apiReport := rep, apiDump := dump\<rparr>\<rparr>)))"
  by (rule doRequest_sbl [OF sbl_flags assms])

text \<open>The claim as stated fails: for a download target that decodes and does not
  encode, the run with both flags set ends the process after the response was
  decoded, and the run without them returns \<open>true\<close>.\<close>

theorem doRequest_flags_counterexample:
  "fst (doRequest (ex_lib ''2.1.0'') ''/users/me'' None ''GET'' (None :: unit iface)
          (Some (undumpable_User, new_User)) False
          ((ex_world (\<lambda>p. None) [] (always 200 ex_user_body))
             \<lparr>Config := Config_zero\<lparr>apiReport := True, apiDump := True\<rparr>\<rparr>)) = Abort Exited \<and>
   fst (doRequest (ex_lib ''2.1.0'') ''/users/me'' None ''GET'' (None :: unit iface)
          (Some (undumpable_User, new_User)) False
          (ex_world (\<lambda>p. None) [] (always 200 ex_user_body))) = Ok (True, Some \<lparr>Name = ''Ada''\<rparr>)"
  by (simp add: model_defs ex_defs Let_def)

lemma flat_pieces_plain:
  "flat_pieces ps = Some kvs \<Longrightarrow> map_of kvs k = Some v \<Longrightarrow> plain_text v"
  by (induction ps arbitrary: kvs rule: flat_pieces.induct) (auto split: if_splits)

lemma flat_Decode_plain:
  assumes "flat_Decode text = Some kvs" "map_of kvs k = Some v"
  shows "plain_text v"
  using assms
  by (auto simp: flat_Decode_def split: list.splits if_splits dest: flat_pieces_plain)

lemma flat_User_encodes_decoded:
  assumes "Decode flat_User body new_User = Some obj"
  shows "Marshal flat_User obj \<noteq> None"
proof -
  from assms obtain kvs where k: "flat_Decode body = Some kvs"
    and obj: "obj = \<lparr>Name = field kvs ''name'' []\<rparr>"
    by (auto simp: flat_User_def new_User_def)
  have "plain_text (field kvs ''name'' [])"
    using flat_Decode_plain [OF k]
    by (cases "map_of kvs ''name''") (auto simp: field_def plain_text_def)
  then show ?thesis
    by (simp add: obj flat_User_def flat_Marshal_def plain_text_def)
qed

theorem doRequest_flags_only_log_witness:
  "fst (doRequest (ex_lib ''2.1.0'') ''/users/me'' None ''GET'' (None :: unit iface)
          (Some (flat_User, new_User)) False
          ((ex_world (\<lambda>p. None) [] (always 200 ex_user_body))
             \<lparr>Config := (Config (ex_world (\<lambda>p. None) [] (always 200 ex_user_body)))
                \<lparr>apiReport := True, apiDump := True\<rparr>\<rparr>)) =
   fst (doRequest (ex_lib ''2.1.0'') ''/users/me'' None ''GET'' (None :: unit iface)
          (Some (flat_User, new_User)) False
          (ex_world (\<lambda>p. None) [] (always 200 ex_user_body))) \<and>
   fst (doRequest (ex_lib ''2.1.0'') ''/users/me'' None ''GET'' (None :: unit iface)
          (Some (flat_User, new_User)) False
          (ex_world (\<lambda>p. None) [] (always 200 ex_user_body))) = Ok (True, Some \<lparr>Name = ''Ada''\<rparr>)"
proof -
  have enc: "\<forall>cd target body obj. Some (flat_User, new_User) = Some (cd, target) \<longrightarrow>
             Decode cd body target = Some obj \<longrightarrow> Marshal cd obj \<noteq> None"
    using flat_User_encodes_decoded by auto
  have run: "fst (doRequest (ex_lib ''2.1.0'') ''/users/me'' None ''GET'' (None :: unit iface)
          (Some (flat_User, new_User)) False
          (ex_world (\<lambda>p. None) [] (always 200 ex_user_body))) = Ok (True, Some \<lparr>Name = ''Ada''\<rparr>)"
    by (simp add: model_defs ex_defs Let_def)
  from doRequest_flags_only_log [OF enc, of "ex_lib ''2.1.0''" "''/users/me''" None "''GET''"
      "None :: unit iface" False True True "ex_world (\<lambda>p. None) [] (always 200 ex_user_body)"]
    run
  show ?thesis by simp
qed

subsection \<open>C8: an upload on GET or DELETE\<close>

lemma uploadPayload_ignored:
  "method = ''GET'' \<or> method = ''DELETE'' \<Longrightarrow>
   uploadPayload method (Some up) req w = uploadPayload method (None :: unit iface) req w"
  by (auto simp: uploadPayload_def split: prod.splits)

text \<open>
  C8, as the code has it. An upload handed to \<open>doRequest\<close> with the method GET or
  DELETE is not an error: the block "upload the payload if any" is guarded by
  \<open>method == "POST" || method == "PUT"\<close>, so the upload is dropped and the call does
  exactly what it does with a \<open>nil\<close> upload.
\<close>

theorem doRequest_upload_ignored:
  "method = ''GET'' \<or> method = ''DELETE'' \<Longrightarrow>
   doRequest d path params method (Some up) download notfoundokay w =
   doRequest d path params method (None :: unit iface) download notfoundokay w"
  by (simp only: doRequest_def uploadPayload_ignored)


text \<open>The claim as stated fails: a GET with an upload, answered with 200, returns
  \<open>false\<close> and the process goes on.\<close>

theorem doRequest_upload_on_GET_counterexample:
  "fst (doRequest (ex_lib ''2.1.0'') ''/problems/42'' None ''GET''
          (Some (flat_User, \<lparr>Name = ''Ada''\<rparr>)) (None :: unit iface) False
          (ex_world (\<lambda>p. None) [] (always 200 []))) = Ok (False, None)"
  by (simp add: model_defs ex_defs Let_def)

theorem doRequest_upload_ignored_witness:
  "doRequest (ex_lib ''2.1.0'') ''/problems/42'' None ''DELETE''
     (Some (flat_User, \<lparr>Name = ''Ada''\<rparr>)) (None :: unit iface) False
     (ex_world (\<lambda>p. None) [] (always 200 [])) =
   doRequest (ex_lib ''2.1.0'') ''/problems/42'' None ''DELETE''
     (None :: unit iface) (None :: unit iface) False
     (ex_world (\<lambda>p. None) [] (always 200 []))"
  using doRequest_upload_ignored [of "''DELETE''" "ex_lib ''2.1.0''" "''/problems/42''" None
     "(flat_User, \<lparr>Name = ''Ada''\<rparr>)" "None :: unit iface" False
     "ex_world (\<lambda>p. None) [] (always 200 [])"]
  by simp

subsection \<open>C9: a token that is no cookie\<close>

text \<open>
  What \<open>CommandInit\<close> does with a token that does not start with the cookie's name
  and \<open>=\<close>, in every world in which it gets as far as reading it: it ends the
  process there, and nothing is sent or written after \<open>mustLoadConfig\<close> returned.
  But \<open>mustLoadConfig\<close>, the first statement of \<open>CommandInit\<close>, ends with the
  version gate, so one request, \<open>GET /version\<close>, has been sent by then.
\<close>

lemma CommandInit_bad_token:
  assumes loaded: "mustLoadConfig d cmd w = (Ok u, w1)"
    and read: "\<not> scan_err (Scanln w)" "scan_n (Scanln w) = 1"
    and bad: "\<not> HasPrefix (scan_token (Scanln w)) (CookieName d @ ''='')"
  shows "CommandInit d cmd w =
           (Abort Exited,
            emit (Log (''the cookie must start with '' @ CookieName d @
                    ''=; perhaps you copied the wrong thing?''))
              (emit (Print (init_prompt (if Host (Config w1) \<noteq> [] then Host (Config w1)
                                         else defaultHost) (CookieName d))) w1)) \<and>
         (\<exists>req resp. filter is_Sent (trace w1) = filter is_Sent (trace w) @ [Sent req (Inr resp)] \<and>
            Method req = ''GET'' \<and> URL req = ''https://'' @ Host (Config w1) @ ''/v2/version'') \<and>
         filter is_Write (trace w1) = filter is_Write (trace w) \<and> files w1 = files w"
proof -
  from mustLoadConfig_Ok [OF loaded] obtain e1 req resp e2 where
    g: "frame w (e1 @ Sent req (Inr resp) # e2) w1" "list_all is_note e1" "list_all is_note e2"
       "Method req = ''GET''" "URL req = api_url w1 ''/version''"
    by blast
  note f = frame_fields [OF g(1)]
  have no_sent: "filter is_Sent evs = []" and no_write: "filter is_Write evs = []"
    if "list_all is_note evs" for evs
    using that by (induction evs) (auto simp: is_note_def)
  have sc: "Scanln (emit e w1) = Scanln w1" for e by (simp add: emit_def)
  have first: "CommandInit d cmd w =
           (Abort Exited,
            emit (Log (''the cookie must start with '' @ CookieName d @
                    ''=; perhaps you copied the wrong thing?''))
              (emit (Print (init_prompt (if Host (Config w1) \<noteq> [] then Host (Config w1)
                                         else defaultHost) (CookieName d))) w1))"
    unfolding CommandInit_def loaded using read bad
    by (simp add: Let_def logFatalf_def sc f(6))
  have sent: "filter is_Sent (trace w1) = filter is_Sent (trace w) @ [Sent req (Inr resp)]"
    by (simp add: f(1) no_sent [OF g(2)] no_sent [OF g(3)])
  have written: "filter is_Write (trace w1) = filter is_Write (trace w)"
    by (simp add: f(1) no_write [OF g(2)] no_write [OF g(3)])
  from first sent written g(4,5) f(2) show ?thesis
    by (auto simp: api_url_def)
qed

text \<open>
  C9 fails on the code. A token that does not start with the cookie's name and \<open>=\<close>
  must end the flow before any request is made. \<open>CommandInit\<close> places the test of
  the prefix before its own \<open>checkVersion()\<close> and before the request for
  \<open>/users/me\<close>, as the claim wants, but it begins with \<open>mustLoadConfig(cmd)\<close>,
  which has already run the version gate: for a user with a config for
  \<open>example.org\<close> who pastes \<open>wrong\<close>, the process ends at the test of the prefix
  and the trace holds the request \<open>GET https://example.org/v2/version\<close>.
\<close>

theorem CommandInit_bad_token_after_request:
  "fst (CommandInit (ex_lib ''2.1.0'') no_flags
          (ex_world (ex_config_file ''example.org'' ''codegrinder=abc'') ''wrong''
             (ex_server ''2.0.0'' ''2.0.0''))) = Abort Exited \<and>
   last (trace (snd (CommandInit (ex_lib ''2.1.0'') no_flags
          (ex_world (ex_config_file ''example.org'' ''codegrinder=abc'') ''wrong''
             (ex_server ''2.0.0'' ''2.0.0''))))) =
     Log ''the cookie must start with codegrinder=; perhaps you copied the wrong thing?'' \<and>
   map (\<lambda>e. case e of Sent req a \<Rightarrow> Method req @ '' '' @ URL req | _ \<Rightarrow> [])
     (filter is_Sent (trace (snd (CommandInit (ex_lib ''2.1.0'') no_flags
          (ex_world (ex_config_file ''example.org'' ''codegrinder=abc'') ''wrong''
             (ex_server ''2.0.0'' ''2.0.0'')))))) =
     [''GET https://example.org/v2/version'']"
  by (simp add: model_defs ex_defs Let_def)

subsection \<open>C10: a dump is never without a report\<close>

text \<open>
  C10. Whenever the flags of \<open>Config\<close> satisfy "apiDump implies apiReport" before
  \<open>mustLoadConfig\<close> (as the zero value of a fresh process does), they satisfy it in
  the world \<open>mustLoadConfig\<close> leaves, and when it returns for a command line with
  \<open>--api-dump\<close> both flags are set: the only assignment to \<open>apiDump\<close> sets
  \<open>apiReport\<close> in the same block, and neither the decoder nor the version gate
  touches the flags.
\<close>

theorem mustLoadConfig_dump_implies_report:
  assumes inv: "apiDump (Config w) \<longrightarrow> apiReport (Config w)"
    and run: "mustLoadConfig d cmd w = (r, w')"
  shows "(apiDump (Config w') \<longrightarrow> apiReport (Config w')) \<and>
         (r = Ok () \<and> flag_api_dump cmd = ''true'' \<longrightarrow> apiReport (Config w') \<and> apiDump (Config w'))"
proof (cases d cmd w rule: mustLoadConfig_cases)
  case (stopped evs)
  with run inv show ?thesis by auto
next
  case (loaded h c)
  let ?w3 = "w\<lparr>Config :=
           \<lparr>Host = h, Cookie = c,
            apiReport = (apiReport (Config w) \<or> flag_api cmd = ''true'' \<or> flag_api_dump cmd = ''true''),
            apiDump = (apiDump (Config w) \<or> flag_api_dump cmd = ''true'')\<rparr>\<rparr>"
  from run loaded have "w' = snd (checkVersion d ?w3)" by simp
  then have "Config w' = Config ?w3" by (simp add: checkVersion_Config)
  with inv show ?thesis by auto
qed

theorem mustLoadConfig_dump_implies_report_witness:
  "fst (mustLoadConfig (ex_lib ''2.1.0'') \<lparr>flag_api = ''false'', flag_api_dump = ''true''\<rparr>
          (ex_world (ex_config_file ''example.org'' ''codegrinder=abc'') []
             (ex_server ''2.0.0'' ''2.0.0''))) = Ok () \<and>
   apiReport (Config (snd (mustLoadConfig (ex_lib ''2.1.0'')
          \<lparr>flag_api = ''false'', flag_api_dump = ''true''\<rparr>
          (ex_world (ex_config_file ''example.org'' ''codegrinder=abc'') []
             (ex_server ''2.0.0'' ''2.0.0''))))) \<and>
   apiDump (Config (snd (mustLoadConfig (ex_lib ''2.1.0'')
          \<lparr>flag_api = ''false'', flag_api_dump = ''true''\<rparr>
          (ex_world (ex_config_file ''example.org'' ''codegrinder=abc'') []
             (ex_server ''2.0.0'' ''2.0.0'')))))"
proof -
  let ?cmd = "\<lparr>flag_api = ''false'', flag_api_dump = ''true''\<rparr>"
  let ?w = "ex_world (ex_config_file ''example.org'' ''codegrinder=abc'') []
             (ex_server ''2.0.0'' ''2.0.0'')"
  let ?run = "mustLoadConfig (ex_lib ''2.1.0'') ?cmd ?w"
  have start: "apiDump (Config ?w) \<longrightarrow> apiReport (Config ?w)"
    by (simp add: ex_world_def Config_zero_def)
  have returns: "fst ?run = Ok ()"
    by (simp add: model_defs ex_defs Let_def)
  have run: "?run = (fst ?run, snd ?run)" by simp
  from mustLoadConfig_dump_implies_report [OF start run] returns
  show ?thesis by (simp add: no_flags_def)
qed

end
